theory Spec2Isabelle
  imports Main
begin

section \<open>Errors\<close>

text \<open>
  The Python exceptions the modelled functions raise. A function that can raise returns
  \<open>error + 'a\<close>, with \<open>Inl\<close> for the exception.
\<close>

datatype error =
    ValueError string
  | AssertionError string
  | TypeError string
  | IndexError string
  | RuntimeError string

section \<open>PartitionSpec resolver (modules/flax\_modelling\_utils.py)\<close>

text \<open>
  An entry of a \<open>PartitionSpec\<close> is \<open>None\<close>, one axis name, or a tuple of entries.
  \<open>get_names_from_partition_spec\<close> takes either one spec (a tuple of entries) or a
  dictionary of specs, of which it reads the values only.
\<close>

datatype ps_item = PNone | PName string | PTuple "ps_item list"

datatype partition_specs = PSpec "ps_item list" | PDict "(string \<times> ps_item) list"

text \<open>
  The loop \<open>for item in partition_specs\<close>: \<open>None\<close> is skipped, a string is added to
  the set \<open>names\<close>, anything else is collected recursively and merged into the set. The
  set is represented by a list without repetitions; Python fixes no order for it.
\<close>

fun get_names_from_items :: "ps_item list \<Rightarrow> string list" where
  "get_names_from_items [] = []"
| "get_names_from_items (PNone # rest) = get_names_from_items rest"
| "get_names_from_items (PName s # rest) = List.insert s (get_names_from_items rest)"
| "get_names_from_items (PTuple sub # rest) =
     List.union (get_names_from_items sub) (get_names_from_items rest)"

fun get_names_from_partition_spec :: "partition_specs \<Rightarrow> string list" where
  "get_names_from_partition_spec (PDict d) = get_names_from_items (map snd d)"
| "get_names_from_partition_spec (PSpec items) = get_names_from_items items"

text \<open>
  The active device mesh is ambient state in the source
  (\<open>pxla.thread_resources.env.physical_mesh\<close>); here it is an argument.
\<close>

record mesh_env =
  axis_names :: "string list"

definition names_in_mesh :: "mesh_env \<Rightarrow> string list \<Rightarrow> bool" where
  "names_in_mesh env names = (set names \<subseteq> set (axis_names env))"

text \<open>
  \<open>wsc\<close> is the sharding-constraint primitive of the tensor framework
  (\<open>jax.experimental.pjit.with_sharding_constraint\<close>); it is an argument of the model.
\<close>

definition with_sharding_constraint ::
  "('x \<Rightarrow> partition_specs \<Rightarrow> error + 'x) \<Rightarrow> mesh_env \<Rightarrow> 'x \<Rightarrow> partition_specs \<Rightarrow> error + 'x"
where
  "with_sharding_constraint wsc env x partition_specs =
     (let axis_names = get_names_from_partition_spec partition_specs
      in if names_in_mesh env axis_names then wsc x partition_specs else Inr x)"

text \<open>
  The axis names a spec mentions, stated apart from the collecting loop: a name is
  mentioned by the entry that is this name, and by a tuple one of whose entries mentions it.
\<close>

inductive item_mentions :: "string \<Rightarrow> ps_item \<Rightarrow> bool" where
  mentions_name: "item_mentions s (PName s)"
| mentions_tuple: "item \<in> set sub \<Longrightarrow> item_mentions s item \<Longrightarrow> item_mentions s (PTuple sub)"

definition spec_items :: "partition_specs \<Rightarrow> ps_item list" where
  "spec_items ps = (case ps of PSpec items \<Rightarrow> items | PDict d \<Rightarrow> map snd d)"

definition spec_mentions :: "string \<Rightarrow> partition_specs \<Rightarrow> bool" where
  "spec_mentions s ps = (\<exists>item \<in> set (spec_items ps). item_mentions s item)"

section \<open>Weight conversion (transform/easydel\_transform.py)\<close>

text \<open>
  Python's \<open>sub in s\<close> on strings, \<open>s.endswith(suffix)\<close> and \<open>s.split(sep)\<close> for a
  separator of one character.
\<close>

fun str_in :: "string \<Rightarrow> string \<Rightarrow> bool" where
  "str_in sub [] = (sub = [])"
| "str_in sub (c # cs) = (take (length sub) (c # cs) = sub \<or> str_in sub cs)"

definition endswith :: "string \<Rightarrow> string \<Rightarrow> bool" where
  "endswith s suffix = (length suffix \<le> length s \<and> drop (length s - length suffix) s = suffix)"

fun split_on :: "char \<Rightarrow> string \<Rightarrow> string list" where
  "split_on sep [] = [[]]"
| "split_on sep (c # cs) =
     (if c = sep then [] # split_on sep cs
      else (case split_on sep cs of w # ws \<Rightarrow> (c # w) # ws | [] \<Rightarrow> [[c]]))"

text \<open>
  A tensor is its shape and its elements in row-major order. \<open>transpose_0_1\<close> is
  \<open>tensor.transpose(0, 1)\<close> on a matrix (the source calls it on 2-D tensors only):
  element \<open>(j, i)\<close> of the result is element \<open>(i, j)\<close> of the argument.
  \<open>astype\<close> converts every element with the conversion of the target dtype.
\<close>

record 'a tensor =
  shape :: "nat list"
  elems :: "'a list"

definition transpose_0_1 :: "'a tensor \<Rightarrow> 'a tensor" where
  "transpose_0_1 t =
     (case shape t of
        [r, c] \<Rightarrow> \<lparr>shape = [c, r], elems = map (\<lambda>n. elems t ! ((n mod r) * c + n div r)) [0..<c * r]\<rparr>
      | _ \<Rightarrow> t)"

definition astype :: "('a \<Rightarrow> 'b) \<Rightarrow> 'a tensor \<Rightarrow> 'b tensor" where
  "astype dtype t = \<lparr>shape = shape t, elems = map dtype (elems t)\<rparr>"

text \<open>
  \<open>match_keywords\<close>: false at the first required keyword that is missing, then false at
  the first forbidden keyword that is present, true otherwise.
\<close>

definition match_keywords :: "string \<Rightarrow> string list \<Rightarrow> string list \<Rightarrow> bool" where
  "match_keywords string ts ns =
     (if list_ex (\<lambda>t. \<not> str_in t string) ts then False
      else if list_ex (\<lambda>n. str_in n string) ns then False
      else True)"

text \<open>
  The \<open>if\<close>/\<open>elif\<close> at the head of the loop body of \<open>huggingface_to_easydel\<close>. The
  embedding branch cuts the last \<open>len('.weight')\<close> characters off the key whatever they
  are (\<open>key[:-_l]\<close>); the kernel branch transposes only 2-D tensors and renames only
  keys that end in \<open>.weight\<close>.
\<close>

definition rename_and_transpose :: "string \<Rightarrow> string \<Rightarrow> 'a tensor \<Rightarrow> string \<times> 'a tensor" where
  "rename_and_transpose embedding_layer_name key tensor =
     (let l = length ''.weight'' in
      if str_in embedding_layer_name key then
        (take (length key - l) key @ ''.embedding'', tensor)
      else if match_keywords key [''kernel''] [''none''] then
        (let tensor' = (if length (shape tensor) = 2 then transpose_0_1 tensor else tensor);
             key' = (if endswith key ''.weight'' then take (length key - l) key @ ''.kernel'' else key)
         in (key', tensor'))
      else (key, tensor))"

text \<open>
  The loop over \<open>state_dict.items()\<close>, in their order: the renamed key is split at the
  dots and the converted tensor is stored under the tuple of segments, replacing what an
  earlier entry stored there. The state dictionary is the list of its items.
\<close>

fun flax_dict_loop ::
  "('a \<Rightarrow> 'b) \<Rightarrow> string \<Rightarrow> (string \<times> 'a tensor) list \<Rightarrow> (string list \<rightharpoonup> 'b tensor)
     \<Rightarrow> (string list \<rightharpoonup> 'b tensor)"
where
  "flax_dict_loop dtype emb [] flax_dict = flax_dict"
| "flax_dict_loop dtype emb ((key, tensor) # rest) flax_dict =
     (let (key', tensor') = rename_and_transpose emb key tensor;
          key_names = split_on CHR ''.'' key'
      in flax_dict_loop dtype emb rest (flax_dict(key_names \<mapsto> astype dtype tensor')))"

text \<open>
  \<open>unflatten_dict\<close> is \<open>flax.traverse_util.unflatten_dict\<close>, which regroups the flat
  dictionary by path prefixes; it is an argument of the model. The target device only
  places the arrays and is left out.
\<close>

definition huggingface_to_easydel ::
  "((string list \<rightharpoonup> 'b tensor) \<Rightarrow> 'd) \<Rightarrow> ('a \<Rightarrow> 'b) \<Rightarrow> (string \<times> 'a tensor) list \<Rightarrow> string \<Rightarrow> 'd"
where
  "huggingface_to_easydel unflatten_dict dtype state_dict embedding_layer_name =
     unflatten_dict (flax_dict_loop dtype embedding_layer_name state_dict Map.empty)"

text \<open>The tuple of path segments under which the loop stores the entry of a key.\<close>

definition key_names_of :: "string \<Rightarrow> string \<Rightarrow> 'a tensor \<Rightarrow> string list" where
  "key_names_of emb key tensor = split_on CHR ''.'' (fst (rename_and_transpose emb key tensor))"

definition example_state_dict :: "(string \<times> int tensor) list" where
  "example_state_dict =
     [(''wte.weight'', \<lparr>shape = [2, 3], elems = [1, 2, 3, 4, 5, 6]\<rparr>),
      (''fc.kernel.weight'', \<lparr>shape = [2, 3], elems = [1, 2, 3, 4, 5, 6]\<rparr>),
      (''ln.bias'', \<lparr>shape = [3], elems = [7, 8, 9]\<rparr>)]"

section \<open>Attention dispatcher (modules/flax\_modelling\_utils.py)\<close>

text \<open>
  The dispatcher hands arrays to kernels of an external library, so an array is the
  expression that builds it from an input: the input with its shape and dtype, the
  transposition \<open>jnp.transpose(x, (0, 2, 1, 3))\<close>, or a dtype conversion.
\<close>

datatype dtype = float16 | bfloat16 | float32 | float64

datatype array =
    Array string "nat list" dtype
  | Transpose_0_2_1_3 array
  | AsType array dtype

fun array_shape :: "array \<Rightarrow> nat list" where
  "array_shape (Array name sh dt) = sh"
| "array_shape (Transpose_0_2_1_3 x) =
     (case array_shape x of [a, b, c, d] \<Rightarrow> [a, c, b, d] | sh \<Rightarrow> sh)"
| "array_shape (AsType x dt) = array_shape x"

text \<open>
  \<open>get_flash_attention\<close> returns the kernel, whether float32 logits are needed, and
  whether the kernel is run through a shard map. The platform of the backend
  (\<open>jax.lib.xla_bridge.get_backend().platform\<close>) is an argument.
\<close>

datatype kernel = ring_flash_attention_gpu | tpu_flash_attention | jax_flash_attn_tpu_flash_attention

definition get_flash_attention :: "string \<Rightarrow> error + kernel \<times> bool \<times> bool" where
  "get_flash_attention platform =
     (if platform = ''gpu'' then Inr (ring_flash_attention_gpu, False, True)
      else if platform = ''tpu'' then Inr (tpu_flash_attention, True, False)
      else Inl (ValueError (''Unsupported platform '' @ platform)))"

text \<open>
  The result of the dispatcher is the kernel call it makes: the kernel under
  \<open>shard_map\<close> with its axis name, float32 flag, keyword arguments, mesh, input and
  output specs and arguments, or the local call with its arguments and block sizes, and
  the final conversion to the output dtype. Dropout rate, random key and precision are
  passed on to the kernel untouched and are left out.
\<close>

record blockwise_kwargs =
  deterministic :: bool
  causal :: bool
  query_chunk_size :: nat
  key_chunk_size :: nat
  kw_dtype :: dtype

record block_sizes =
  block_b :: nat
  block_k :: nat
  block_q :: nat
  block_k_major :: nat

datatype attn_output =
    ShardMapCall kernel string bool blockwise_kwargs mesh_env "ps_item list list" "ps_item list" "array list"
  | LocalCall kernel "array list" block_sizes
  | OutAsType attn_output dtype

definition assertion_mkv_err :: string where
  "assertion_mkv_err = ''Q,K,V and bias shapes must be like [batch_size, num_attention_heads, seq_len, head_dims]''"

text \<open>
  \<open>smart_flash_attention\<close>: the shape assertions, then the choice of the kernel by
  platform. \<open>q.shape[0]\<close> of an array without axes raises \<open>IndexError\<close>.
\<close>

definition smart_flash_attention ::
  "string \<Rightarrow> (attn_output \<Rightarrow> partition_specs \<Rightarrow> error + attn_output) \<Rightarrow> mesh_env
     \<Rightarrow> array \<Rightarrow> array \<Rightarrow> array \<Rightarrow> array
     \<Rightarrow> ps_item list \<Rightarrow> ps_item list \<Rightarrow> ps_item list \<Rightarrow> ps_item list \<Rightarrow> ps_item list
     \<Rightarrow> nat \<Rightarrow> nat \<Rightarrow> nat \<Rightarrow> nat \<Rightarrow> nat \<Rightarrow> nat \<Rightarrow> nat \<Rightarrow> bool
     \<Rightarrow> mesh_env option \<Rightarrow> dtype \<Rightarrow> bool \<Rightarrow> bool \<Rightarrow> error + attn_output"
where
  "smart_flash_attention platform wsc env q k v bias q_ps k_ps v_ps b_ps a_ps
       blk_k blk_q blk_b q_seq_len kv_seq_len num_attention_heads head_dims is_causal
       mesh out_dtype force_float32_tpu is_deterministic =
     (case (array_shape q, array_shape k, array_shape v) of
        (batch_size # _, k0 # _, v0 # _) \<Rightarrow>
          if \<not> (batch_size = k0 \<and> k0 = v0) then Inl (AssertionError ''Batch Size for q,k,v wont match'')
          else if array_shape q \<noteq> [batch_size, num_attention_heads, q_seq_len, head_dims] then
            Inl (AssertionError assertion_mkv_err)
          else if array_shape k \<noteq> [batch_size, num_attention_heads, kv_seq_len, head_dims] then
            Inl (AssertionError assertion_mkv_err)
          else if array_shape v \<noteq> [batch_size, num_attention_heads, kv_seq_len, head_dims] then
            Inl (AssertionError assertion_mkv_err)
          else if array_shape bias \<noteq> [batch_size, num_attention_heads, q_seq_len, kv_seq_len] then
            Inl (AssertionError assertion_mkv_err)
          else
            (case get_flash_attention platform of
               Inl e \<Rightarrow> Inl e
             | Inr (flash_attn_fn, f32_upcast, do_shard_map) \<Rightarrow>
                 if do_shard_map then
                   (case mesh of
                      None \<Rightarrow> Inl (AssertionError ''For Using Shard Map on GPUs you have to pass Mesh'')
                    | Some m \<Rightarrow>
                        (case with_sharding_constraint wsc env
                                (ShardMapCall flash_attn_fn ''mp'' f32_upcast
                                   \<lparr>deterministic = is_deterministic, causal = is_causal,
                                    query_chunk_size = blk_q, key_chunk_size = blk_k, kw_dtype = out_dtype\<rparr>
                                   m [q_ps, k_ps, v_ps, b_ps] a_ps
                                   [Transpose_0_2_1_3 q, Transpose_0_2_1_3 k, Transpose_0_2_1_3 v, bias])
                                (PSpec a_ps) of
                           Inl e \<Rightarrow> Inl e
                         | Inr attn_output \<Rightarrow> Inr (OutAsType attn_output out_dtype)))
                 else
                   (let qkv = (if force_float32_tpu \<or> f32_upcast
                               then [AsType q float32, AsType k float32, AsType v float32]
                               else [q, k, v])
                    in Inr (OutAsType
                         (LocalCall jax_flash_attn_tpu_flash_attention (qkv @ [bias])
                            \<lparr>block_b = blk_b, block_k = blk_k, block_q = blk_q, block_k_major = blk_k\<rparr>)
                         out_dtype)))
      | _ \<Rightarrow> Inl (IndexError ''tuple index out of range''))"

section \<open>Calling a pretrained model (modules/mistral, modules/falcon)\<close>

text \<open>
  \<open>__call__\<close> of \<open>FlaxMistralPretrainedModel\<close> and of \<open>FlaxFalconPretrainedModel\<close>
  prepares the inputs and hands them to \<open>module.apply\<close>, the network itself. The model
  is this preparation: it returns the arguments of \<open>module.apply\<close>, or the exception
  raised before the network is reached.

  The parameters and the cache are dictionaries: a plain \<open>dict\<close>, or a \<open>FrozenDict\<close>,
  whose item assignment raises. A dictionary is the list of its items; it is truthy
  if it is not empty, and \<open>None\<close> is not truthy. \<open>d[k] = v\<close> on a plain dictionary
  replaces the value of \<open>k\<close> or adds the item at the end.
\<close>

datatype 'c pyvalue = ArrayValue 'c | DictValue "'c pydict"
  and 'c pydict = Dict "(string \<times> 'c pyvalue) list" | FrozenDict "(string \<times> 'c pyvalue) list"

definition dict_items :: "'c pydict \<Rightarrow> (string \<times> 'c pyvalue) list" where
  "dict_items d = (case d of Dict es \<Rightarrow> es | FrozenDict es \<Rightarrow> es)"

definition truthy :: "'c pydict option \<Rightarrow> bool" where
  "truthy d = (case d of None \<Rightarrow> False | Some m \<Rightarrow> dict_items m \<noteq> [])"

fun setitem_entries :: "string \<Rightarrow> 'v \<Rightarrow> (string \<times> 'v) list \<Rightarrow> (string \<times> 'v) list" where
  "setitem_entries k v [] = [(k, v)]"
| "setitem_entries k v ((k', v') # es) =
     (if k' = k then (k, v) # es else (k', v') # setitem_entries k v es)"

definition setitem :: "'c pydict \<Rightarrow> string \<Rightarrow> 'c pyvalue \<Rightarrow> error + 'c pydict" where
  "setitem d k v =
     (case d of
        Dict es \<Rightarrow> Inr (Dict (setitem_entries k v es))
      | FrozenDict es \<Rightarrow> Inl (ValueError ''FrozenDict is immutable.''))"

text \<open>
  \<open>params or self.params\<close>, and
  \<open>inputs = {"params": params or self.params} if add_params_field else params or self.params\<close>.
  \<open>self.params\<close> is a parameter of the model.
\<close>

definition params_or_self :: "'c pydict option \<Rightarrow> 'c pydict \<Rightarrow> 'c pydict" where
  "params_or_self params self_params =
     (case params of
        None \<Rightarrow> self_params
      | Some p \<Rightarrow> if dict_items p \<noteq> [] then p else self_params)"

definition call_inputs :: "'c pydict option \<Rightarrow> 'c pydict \<Rightarrow> bool \<Rightarrow> 'c pydict" where
  "call_inputs params self_params add_params_field =
     (if add_params_field then Dict [(''params'', DictValue (params_or_self params self_params))]
      else params_or_self params self_params)"

text \<open>
  \<open>if past_key_values: inputs["cache"] = past_key_values; mutable = ["cache"]\<close>,
  \<open>else: mutable = False\<close>. The result is the inputs and whether the cache is mutable.
\<close>

definition insert_cache :: "'c pydict \<Rightarrow> 'c pydict option \<Rightarrow> error + 'c pydict \<times> bool" where
  "insert_cache inputs past_key_values =
     (case past_key_values of
        None \<Rightarrow> Inr (inputs, False)
      | Some cache \<Rightarrow>
          if dict_items cache = [] then Inr (inputs, False)
          else (case setitem inputs ''cache'' (DictValue cache) of
                  Inl e \<Rightarrow> Inl e
                | Inr inputs' \<Rightarrow> Inr (inputs', True)))"

record 'c apply_args =
  arg_inputs :: "'c pydict"
  mutable_cache :: bool
  arg_input_ids :: "int tensor"
  arg_attention_mask :: "int tensor"
  arg_position_ids :: "int tensor"

text \<open>
  A tensor of ids is an \<open>int tensor\<close>. \<open>int32\<close> is the wrap-around of a 32-bit signed
  integer and \<open>as_i4\<close> the conversion \<open>jnp.array(x, dtype="i4")\<close>, applied to the three
  tensors that are handed to the network. \<open>broadcast_arange\<close> is
  \<open>jnp.broadcast_to(jnp.arange(sequence_length)[None, :], (batch_size, sequence_length))\<close>
  and \<open>ones\<close> is \<open>jnp.ones((batch_size, sequence_length))\<close>.
\<close>

definition int32 :: "int \<Rightarrow> int" where
  "int32 x = (x + 2 ^ 31) mod 2 ^ 32 - 2 ^ 31"

definition as_i4 :: "int tensor \<Rightarrow> int tensor" where
  "as_i4 t = \<lparr>shape = shape t, elems = map int32 (elems t)\<rparr>"

definition broadcast_arange :: "nat \<Rightarrow> nat \<Rightarrow> int tensor" where
  "broadcast_arange batch_size sequence_length =
     \<lparr>shape = [batch_size, sequence_length],
      elems = concat (replicate batch_size (map int [0..<sequence_length]))\<rparr>"

definition ones :: "nat \<Rightarrow> nat \<Rightarrow> int tensor" where
  "ones batch_size sequence_length =
     \<lparr>shape = [batch_size, sequence_length], elems = replicate (batch_size * sequence_length) 1\<rparr>"

definition position_ids_required :: string where
  "position_ids_required = ''Make sure to provide `position_ids` when passing `past_key_values`.''"

text \<open>
  Mistral unpacks \<open>input_ids.shape\<close> into two names first, tests \<open>position_ids\<close>,
  builds the defaults, and only then builds the inputs and inserts the cache.
\<close>

definition mistral_call_apply_args ::
  "int tensor \<Rightarrow> int tensor option \<Rightarrow> int tensor option \<Rightarrow> 'c pydict option \<Rightarrow> 'c pydict option
     \<Rightarrow> 'c pydict \<Rightarrow> bool \<Rightarrow> error + 'c apply_args"
where
  "mistral_call_apply_args input_ids attention_mask position_ids params past_key_values
       self_params add_params_field =
     (case shape input_ids of
        [batch_size, sequence_length] \<Rightarrow>
          (case (case position_ids of
                   None \<Rightarrow>
                     (if past_key_values \<noteq> None then Inl (ValueError position_ids_required)
                      else Inr (broadcast_arange batch_size sequence_length))
                 | Some p \<Rightarrow> Inr p) of
             Inl e \<Rightarrow> Inl e
           | Inr position_ids' \<Rightarrow>
               (let attention_mask' =
                      (case attention_mask of None \<Rightarrow> ones batch_size sequence_length | Some m \<Rightarrow> m);
                    inputs = call_inputs params self_params add_params_field
                in case insert_cache inputs past_key_values of
                     Inl e \<Rightarrow> Inl e
                   | Inr (inputs', mutable) \<Rightarrow>
                       Inr \<lparr>arg_inputs = inputs',
                            mutable_cache = mutable,
                            arg_input_ids = as_i4 input_ids,
                            arg_attention_mask = as_i4 attention_mask',
                            arg_position_ids = as_i4 position_ids'\<rparr>))
      | _ \<Rightarrow> Inl (ValueError ''cannot unpack input_ids.shape into batch_size, sequence_length''))"

text \<open>
  Falcon converts \<open>input_ids\<close> to \<open>int32\<close>, then builds the inputs and inserts the
  cache, and tests \<open>position_ids\<close> after that. It reads \<open>input_ids.shape[0]\<close> and
  \<open>input_ids.shape[1]\<close> only where it builds a default.
\<close>

definition falcon_call_apply_args ::
  "int tensor \<Rightarrow> int tensor option \<Rightarrow> int tensor option \<Rightarrow> 'c pydict option \<Rightarrow> 'c pydict option
     \<Rightarrow> 'c pydict \<Rightarrow> bool \<Rightarrow> error + 'c apply_args"
where
  "falcon_call_apply_args input_ids0 attention_mask position_ids past_key_values params
       self_params add_params_field =
     (let input_ids = as_i4 input_ids0;
          inputs = call_inputs params self_params add_params_field
      in case insert_cache inputs past_key_values of
           Inl e \<Rightarrow> Inl e
         | Inr (inputs', mutable) \<Rightarrow>
            (case (case position_ids of
                     None \<Rightarrow>
                       (if past_key_values \<noteq> None then Inl (ValueError position_ids_required)
                        else (case shape input_ids of
                                batch_size # sequence_length # _ \<Rightarrow>
                                  Inr (broadcast_arange batch_size sequence_length)
                              | _ \<Rightarrow> Inl (IndexError ''tuple index out of range'')))
                   | Some p \<Rightarrow> Inr p) of
               Inl e \<Rightarrow> Inl e
             | Inr position_ids' \<Rightarrow>
                 (case (case attention_mask of
                          None \<Rightarrow>
                            (case shape input_ids of
                               batch_size # sequence_length # _ \<Rightarrow> Inr (ones batch_size sequence_length)
                             | _ \<Rightarrow> Inl (IndexError ''tuple index out of range''))
                        | Some m \<Rightarrow> Inr m) of
                    Inl e \<Rightarrow> Inl e
                  | Inr attention_mask' \<Rightarrow>
                      Inr \<lparr>arg_inputs = inputs',
                           mutable_cache = mutable,
                           arg_input_ids = as_i4 input_ids,
                           arg_attention_mask = as_i4 attention_mask',
                           arg_position_ids = as_i4 position_ids'\<rparr>)))"

section \<open>Configuration objects: add\_jax\_args (modules/falcon, modules/mistral)\<close>

text \<open>
  A configuration object is the map from its attribute names to their values:
  \<open>hasattr(self, k)\<close> is \<open>self k \<noteq> None\<close> and \<open>setattr(self, k, v)\<close> is
  \<open>self(k \<mapsto> v)\<close>. Floating-point values are only stored, never computed with; their
  type is a parameter.
\<close>

datatype 'f attr_value =
    ABool bool
  | AInt int
  | AStr string
  | AFloat 'f
  | ANone
  | ADims "int list"
  | ANames "string list"
  | ASpec "ps_item list"

type_synonym 'f config = "string \<rightharpoonup> 'f attr_value"

text \<open>The sharding arguments that both \<open>add_jax_args\<close> methods take.\<close>

record sharding_args =
  sh_axis_dims :: "int list"
  sh_axis_names :: "string list"
  sh_q_ps :: "ps_item list"
  sh_k_ps :: "ps_item list"
  sh_v_ps :: "ps_item list"
  sh_b_ps :: "ps_item list"
  sh_a_ps :: "ps_item list"
  sh_backend :: "string option"

definition opt_str :: "string option \<Rightarrow> 'f attr_value" where
  "opt_str x = (case x of None \<Rightarrow> ANone | Some s \<Rightarrow> AStr s)"

definition opt_int :: "int option \<Rightarrow> 'f attr_value" where
  "opt_int x = (case x of None \<Rightarrow> ANone | Some i \<Rightarrow> AInt i)"

text \<open>
  \<open>assign_all\<close> is a sequence of assignments \<open>self.name = v\<close>, in order. \<open>set_missing\<close>
  is Falcon's loop \<open>for key_state, value_state in basics.items(): if not hasattr(self,
  key_state): setattr(self, key_state, value_state)\<close>.
\<close>

fun assign_all :: "(string \<times> 'f attr_value) list \<Rightarrow> 'f config \<Rightarrow> 'f config" where
  "assign_all [] self = self"
| "assign_all ((name, v) # rest) self = assign_all rest (self(name \<mapsto> v))"

fun set_missing :: "(string \<times> 'f attr_value) list \<Rightarrow> 'f config \<Rightarrow> 'f config" where
  "set_missing [] self = self"
| "set_missing ((key_state, value_state) # rest) self =
     set_missing rest (if self key_state = None then self(key_state \<mapsto> value_state) else self)"

text \<open>
  The assignments of the sharding fields, as both methods make them, with no test of
  what the object already holds.
\<close>

definition sharding_assignments :: "sharding_args \<Rightarrow> (string \<times> 'f attr_value) list" where
  "sharding_assignments sh =
     [(''axis_names'', ANames (sh_axis_names sh)),
      (''axis_dims'', ADims (sh_axis_dims sh)),
      (''q_ps'', ASpec (sh_q_ps sh)),
      (''k_ps'', ASpec (sh_k_ps sh)),
      (''v_ps'', ASpec (sh_v_ps sh)),
      (''b_ps'', ASpec (sh_b_ps sh)),
      (''a_ps'', ASpec (sh_a_ps sh)),
      (''backend'', opt_str (sh_backend sh))]"

text \<open>
  \<open>FalconConfig.add_jax_args\<close>: the sharding fields are assigned, then the
  hyperparameters (the dictionary \<open>basics\<close>, built from the named arguments and the
  extra keyword arguments) are set where the object has no such attribute, then
  \<open>from_pt\<close> is assigned \<open>False\<close>.
\<close>

definition falcon_add_jax_args ::
  "'f config \<Rightarrow> sharding_args \<Rightarrow> (string \<times> 'f attr_value) list \<Rightarrow> 'f config"
where
  "falcon_add_jax_args self sh basics =
     (let self1 = assign_all (sharding_assignments sh) self;
          self2 = set_missing basics self1
      in self2(''from_pt'' \<mapsto> ABool False))"

text \<open>
  \<open>MistralConfig.add_jax_args\<close> assigns twelve fields of its own and the sharding
  fields, all of them unconditionally; extra keyword arguments are ignored.
\<close>

record 'f mistral_jax_args =
  gradient_checkpointing :: string
  use_pjit_attention_force :: bool
  use_flash_attention :: bool
  use_sacn_mlp :: bool
  flash_attn_query_chunk_size :: int
  flash_attn_key_chunk_size :: int
  scan_mlp_chunk_size :: int
  number_rep_kv :: int
  attn_pdrop :: 'f
  c_max_position_embeddings :: int
  freq_max_position_embeddings :: "int option"
  bits :: "int option"

definition mistral_assignments :: "'f mistral_jax_args \<Rightarrow> (string \<times> 'f attr_value) list" where
  "mistral_assignments a =
     [(''use_flash_attention'', ABool (use_flash_attention a)),
      (''number_rep_kv'', AInt (number_rep_kv a)),
      (''gradient_checkpointing'', AStr (gradient_checkpointing a)),
      (''use_pjit_attention_force'', ABool (use_pjit_attention_force a)),
      (''use_sacn_mlp'', ABool (use_sacn_mlp a)),
      (''flash_attn_query_chunk_size'', AInt (flash_attn_query_chunk_size a)),
      (''flash_attn_key_chunk_size'', AInt (flash_attn_key_chunk_size a)),
      (''scan_mlp_chunk_size'', AInt (scan_mlp_chunk_size a)),
      (''attn_pdrop'', AFloat (attn_pdrop a)),
      (''c_max_position_embeddings'', AInt (c_max_position_embeddings a)),
      (''freq_max_position_embeddings'', opt_int (freq_max_position_embeddings a)),
      (''bits'', opt_int (bits a))]"

definition mistral_add_jax_args ::
  "'f config \<Rightarrow> 'f mistral_jax_args \<Rightarrow> sharding_args \<Rightarrow> 'f config"
where
  "mistral_add_jax_args self a sh = assign_all (mistral_assignments a @ sharding_assignments sh) self"

text \<open>The sharding fields and the value each is given.\<close>

definition sharding_value :: "sharding_args \<Rightarrow> string \<Rightarrow> 'f attr_value option" where
  "sharding_value sh = map_of (sharding_assignments sh)"

definition sharding_fields :: "string list" where
  "sharding_fields = [''axis_names'', ''axis_dims'', ''q_ps'', ''k_ps'', ''v_ps'', ''b_ps'', ''a_ps'', ''backend'']"

text \<open>The names of the twelve fields of its own that Mistral's method assigns.\<close>

definition mistral_fields :: "string list" where
  "mistral_fields =
     [''use_flash_attention'', ''number_rep_kv'', ''gradient_checkpointing'',
      ''use_pjit_attention_force'', ''use_sacn_mlp'', ''flash_attn_query_chunk_size'',
      ''flash_attn_key_chunk_size'', ''scan_mlp_chunk_size'', ''attn_pdrop'',
      ''c_max_position_embeddings'', ''freq_max_position_embeddings'', ''bits'']"

text \<open>
  The default sharding arguments of Falcon's method and of Mistral's, which differ in
  \<open>b_ps\<close>, and the defaults of Mistral's own arguments.
\<close>

definition falcon_default_sharding_args :: sharding_args where
  "falcon_default_sharding_args =
     \<lparr>sh_axis_dims = [1, - 1, 1, 1],
      sh_axis_names = [''dp'', ''fsdp'', ''tp'', ''mp''],
      sh_q_ps = [PTuple [PName ''dp'', PName ''fsdp''], PName ''mp'', PName ''tp'', PNone],
      sh_k_ps = [PTuple [PName ''dp'', PName ''fsdp''], PName ''mp'', PName ''tp'', PNone],
      sh_v_ps = [PTuple [PName ''dp'', PName ''fsdp''], PName ''mp'', PName ''tp'', PNone],
      sh_b_ps = [PName ''dp'', PNone, PTuple [PName ''dp'', PName ''fsdp''], PNone],
      sh_a_ps = [PTuple [PName ''dp'', PName ''fsdp''], PName ''mp'', PName ''tp'', PNone],
      sh_backend = None\<rparr>"

definition mistral_default_sharding_args :: sharding_args where
  "mistral_default_sharding_args =
     \<lparr>sh_axis_dims = [1, - 1, 1, 1],
      sh_axis_names = [''dp'', ''fsdp'', ''tp'', ''mp''],
      sh_q_ps = [PTuple [PName ''dp'', PName ''fsdp''], PName ''mp'', PName ''tp'', PNone],
      sh_k_ps = [PTuple [PName ''dp'', PName ''fsdp''], PName ''mp'', PName ''tp'', PNone],
      sh_v_ps = [PTuple [PName ''dp'', PName ''fsdp''], PName ''mp'', PName ''tp'', PNone],
      sh_b_ps = [PTuple [PName ''dp'', PName ''fsdp''], PNone, PName ''tp'', PNone],
      sh_a_ps = [PTuple [PName ''dp'', PName ''fsdp''], PName ''mp'', PName ''tp'', PNone],
      sh_backend = None\<rparr>"

definition default_mistral_jax_args :: "unit mistral_jax_args" where
  "default_mistral_jax_args =
     \<lparr>gradient_checkpointing = ''nothing_saveable'', use_pjit_attention_force = False,
      use_flash_attention = False, use_sacn_mlp = False, flash_attn_query_chunk_size = 1024,
      flash_attn_key_chunk_size = 1024, scan_mlp_chunk_size = 1024, number_rep_kv = 1,
      attn_pdrop = (), c_max_position_embeddings = 4096, freq_max_position_embeddings = None,
      bits = None\<rparr>"

section \<open>Device mesh builder (modules/flax\_modelling\_utils.py)\<close>

text \<open>
  \<open>create_mesh\<close> reshapes an array of \<open>(number of devices, 1)\<close> ones to \<open>axis_dims\<close>
  and takes the shape of the result. \<open>reshape_shape\<close> is the shape that the array
  library's \<open>reshape\<close> gives an array of \<open>sz\<close> elements: at most one entry of the new
  shape may be \<open>-1\<close>, no other entry may be negative, the \<open>-1\<close> is replaced by the size
  divided by the product of the other entries, which must divide it, and without a
  \<open>-1\<close> the product must be the size.
\<close>

definition reshape_shape :: "nat \<Rightarrow> int list \<Rightarrow> error + nat list" where
  "reshape_shape sz newshape =
     (let others = filter (\<lambda>d. d \<noteq> - 1) newshape;
          p = prod_list others
      in if length others + 1 < length newshape then
           Inl (TypeError ''can only specify one unknown dimension'')
         else if list_ex (\<lambda>d. d < 0) others then
           Inl (TypeError ''negative dimensions are not allowed'')
         else if length others < length newshape then
           (if p = 0 \<or> int sz mod p \<noteq> 0 then
              Inl (TypeError ''cannot reshape: the specified axis sizes do not evenly divide the size'')
            else Inr (map (\<lambda>d. if d = - 1 then sz div nat p else nat d) newshape))
         else if p \<noteq> int sz then
           Inl (TypeError ''cannot reshape: the sizes differ'')
         else Inr (map nat newshape))"

text \<open>
  A mesh is its axis names and the shape of its array of devices; \<open>mesh.shape[name]\<close>
  is the size of the axis of that name.
\<close>

record mesh = mesh_env +
  devices_shape :: "nat list"

definition shape_of_mesh :: "mesh \<Rightarrow> string \<rightharpoonup> nat" where
  "shape_of_mesh m = map_of (zip (axis_names m) (devices_shape m))"

text \<open>
  \<open>jax_devices\<close> gives the number of devices of a backend, the default backend under
  the empty name. \<open>create_device_mesh\<close> is called without a list of devices and so
  arranges the devices of the default backend, whose number must be the product of the
  mesh shape. \<open>Mesh\<close> needs one axis name for each axis of the array of devices.
\<close>

definition create_device_mesh :: "(string \<rightharpoonup> nat) \<Rightarrow> nat list \<Rightarrow> error + nat list" where
  "create_device_mesh jax_devices mesh_shape =
     (case jax_devices '''' of
        None \<Rightarrow> Inl (RuntimeError ''no backend'')
      | Some n \<Rightarrow>
          if prod_list mesh_shape \<noteq> n then
            Inl (ValueError ''Number of devices must equal the product of mesh_shape'')
          else Inr mesh_shape)"

definition Mesh :: "nat list \<Rightarrow> string list \<Rightarrow> error + mesh" where
  "Mesh devices names =
     (if length names \<noteq> length devices then
        Inl (ValueError ''Mesh requires the ndim of its first argument to equal the length of its second'')
      else Inr \<lparr>axis_names = names, devices_shape = devices\<rparr>)"

text \<open>
  \<open>create_mesh\<close>: the devices are \<open>jax.devices()\<close> if \<open>backend == ""\<close> and
  \<open>jax.devices(backend)\<close> otherwise.
\<close>

definition create_mesh ::
  "(string \<rightharpoonup> nat) \<Rightarrow> int list \<Rightarrow> string list \<Rightarrow> string \<Rightarrow> error + mesh"
where
  "create_mesh jax_devices axis_dims axis_names' backend =
     (case jax_devices backend of
        None \<Rightarrow> Inl (RuntimeError ''Unknown backend'')
      | Some n \<Rightarrow>
          (case reshape_shape (n * 1) axis_dims of
             Inl e \<Rightarrow> Inl e
           | Inr resh \<Rightarrow>
               (case create_device_mesh jax_devices resh of
                  Inl e \<Rightarrow> Inl e
                | Inr devices \<Rightarrow> Mesh devices axis_names')))"

section \<open>Key/value cache (modules/falcon/modelling\_falcon\_flax.py, modules/mistral/modelling\_mistral\_flax.py)\<close>

text \<open>
  Tensors of any rank keep their elements in row-major order: \<open>ravel_multi_index\<close>
  is the position of a multi-index in that order, \<open>unravel_index\<close> its inverse, and
  \<open>at t idx\<close> is the element \<open>t[idx]\<close>. A multi-index is valid for a shape if it has one
  entry below each dimension; a tensor is well formed if it has as many elements as
  its shape says.
\<close>

fun ravel_multi_index :: "nat list \<Rightarrow> nat list \<Rightarrow> nat" where
  "ravel_multi_index (n # sh) (i # idx) = i * prod_list sh + ravel_multi_index sh idx"
| "ravel_multi_index sh idx = 0"

fun unravel_index :: "nat list \<Rightarrow> nat \<Rightarrow> nat list" where
  "unravel_index [] k = []"
| "unravel_index (n # sh) k = (k div prod_list sh) # unravel_index sh (k mod prod_list sh)"

definition valid_index :: "nat list \<Rightarrow> nat list \<Rightarrow> bool" where
  "valid_index sh idx = list_all2 (\<lambda>i n. i < n) idx sh"

definition well_formed :: "'a tensor \<Rightarrow> bool" where
  "well_formed t = (length (elems t) = prod_list (shape t))"

definition at :: "'a tensor \<Rightarrow> nat list \<Rightarrow> 'a" where
  "at t idx = elems t ! ravel_multi_index (shape t) idx"

text \<open>
  \<open>lax.dynamic_update_slice operand update start_indices\<close> of the array library
  returns \<open>operand\<close> with \<open>update\<close> written at the start indices. It raises if the
  number of indices is not the rank of the operand, if the ranks of operand and
  update differ, or if a dimension of the update is larger than the operand's. It
  never raises for the value of an index: a negative index counts from the end, and
  each index is then clamped to \<open>[0, operand_dim - update_dim]\<close>, so that the whole
  update lies inside the operand. Operand and update have the same element type.
\<close>

definition clamp_start :: "int \<Rightarrow> nat \<Rightarrow> nat \<Rightarrow> nat" where
  "clamp_start i operand_dim update_dim =
     nat (max 0 (min (if i < 0 then i + int operand_dim else i) (int operand_dim - int update_dim)))"

definition in_window :: "nat list \<Rightarrow> nat list \<Rightarrow> nat list \<Rightarrow> bool" where
  "in_window idx starts sizes = list_all2 (\<lambda>i (s, u). s \<le> i \<and> i < s + u) idx (zip starts sizes)"

definition clamp_starts :: "int list \<Rightarrow> nat list \<Rightarrow> nat list \<Rightarrow> nat list" where
  "clamp_starts start_indices operand_shape update_shape =
     map (\<lambda>(i, n, u). clamp_start i n u) (zip start_indices (zip operand_shape update_shape))"

definition dynamic_update_slice :: "'a tensor \<Rightarrow> 'a tensor \<Rightarrow> int list \<Rightarrow> error + 'a tensor" where
  "dynamic_update_slice operand update start_indices =
     (if length start_indices \<noteq> length (shape operand) then
        Inl (ValueError ''Length of slice indices must match number of operand dimensions.'')
      else if length (shape update) \<noteq> length (shape operand) then
        Inl (TypeError ''dynamic_update_slice update must have the same rank as operand'')
      else if list_ex (\<lambda>(u, n). n < u) (zip (shape update) (shape operand)) then
        Inl (TypeError ''dynamic_update_slice update shape must be smaller than operand shape'')
      else
        (let starts = clamp_starts start_indices (shape operand) (shape update)
         in Inr \<lparr>shape = shape operand,
                 elems = map (\<lambda>k. let idx = unravel_index (shape operand) k
                                   in if in_window idx starts (shape update)
                                      then elems update !
                                             ravel_multi_index (shape update) (map (\<lambda>(i, s). i - s) (zip idx starts))
                                      else elems operand ! k)
                             [0..<length (elems operand)]\<rparr>))"


text \<open>
  \<open>jnp.zeros\<close>, the wrap-around of a 32-bit signed integer (\<open>cache_index\<close> is a
  \<open>jnp.int32\<close> scalar), and the pad mask
  \<open>jnp.broadcast_to(jnp.arange(max_length) < bound, sh)\<close>, whose last dimension is
  \<open>max_length\<close>.
\<close>

definition zeros :: "nat list \<Rightarrow> 'a::zero tensor" where
  "zeros sh = \<lparr>shape = sh, elems = replicate (prod_list sh) 0\<rparr>"

definition pad_mask :: "nat \<Rightarrow> int \<Rightarrow> nat list \<Rightarrow> bool tensor" where
  "pad_mask max_length bound sh =
     \<lparr>shape = sh,
      elems = concat (replicate (prod_list (butlast sh)) (map (\<lambda>j. int j < bound) [0..<max_length]))\<rparr>"

text \<open>
  The variables of the \<open>cache\<close> collection. \<open>None\<close> is the state in which the cache
  has no key variable yet (\<open>has_variable\<close> is false): the call then creates the three
  variables, zero buffers of the shape of its key and value arguments and the index
  0, and returns its arguments. Otherwise the call unpacks the shape of the key
  buffer, writes key and value at the index along the sequence axis, adds
  \<open>query.shape[1]\<close> to the index and combines the pad mask with the attention mask.
  \<open>combine_masks\<close> belongs to the neural network library and is a parameter.
  The result is the new state of the cache and what the method returns.
\<close>

record 'a kv_cache =
  cached_key :: "'a tensor"
  cached_value :: "'a tensor"
  cache_index :: int

definition falcon_concatenate_to_cache ::
  "(bool tensor \<Rightarrow> 'm \<Rightarrow> error + 'm) \<Rightarrow> 'a::zero kv_cache option
     \<Rightarrow> 'a tensor \<Rightarrow> 'a tensor \<Rightarrow> 'q tensor \<Rightarrow> 'm
     \<Rightarrow> error + 'a kv_cache \<times> 'a tensor \<times> 'a tensor \<times> 'm" where
  "falcon_concatenate_to_cache combine_masks cache key value query attention_mask =
     (case cache of
        None \<Rightarrow>
          Inr (\<lparr>cached_key = zeros (shape key), cached_value = zeros (shape value), cache_index = 0\<rparr>,
               key, value, attention_mask)
      | Some c \<Rightarrow>
          (case rev (shape (cached_key c)) of
             depth_per_head # num_heads # max_length # rev_batch_dims \<Rightarrow>
               (let batch_dims = rev rev_batch_dims;
                    cur_index = cache_index c;
                    indices = replicate (length batch_dims) 0 @ [cur_index, 0, 0]
                in case dynamic_update_slice (cached_key c) key indices of
                     Inl e \<Rightarrow> Inl e
                   | Inr key' \<Rightarrow>
                      (case dynamic_update_slice (cached_value c) value indices of
                         Inl e \<Rightarrow> Inl e
                       | Inr value' \<Rightarrow>
                          (case shape query of
                             _ # num_updated_cache_vectors # _ \<Rightarrow>
                               (let new_index = int32 (cur_index + int num_updated_cache_vectors);
                                    pad = pad_mask max_length new_index
                                            (batch_dims @ [1, num_updated_cache_vectors, max_length])
                                in case combine_masks pad attention_mask of
                                     Inl e \<Rightarrow> Inl e
                                   | Inr attention_mask' \<Rightarrow>
                                       Inr (\<lparr>cached_key = key', cached_value = value', cache_index = new_index\<rparr>,
                                            key', value', attention_mask'))
                           | _ \<Rightarrow> Inl (IndexError ''tuple index out of range''))))
           | _ \<Rightarrow> Inl (ValueError ''not enough values to unpack (expected at least 3)'')))"

text \<open>
  Mistral's \<open>concatenate_to_cache_\<close> names the variables \<open>key\<close>, \<open>value\<close> and
  \<open>index\<close>, creates the value buffer with the shape of the key, and returns the query
  as well.
\<close>

definition mistral_concatenate_to_cache ::
  "(bool tensor \<Rightarrow> 'm \<Rightarrow> error + 'm) \<Rightarrow> 'a::zero kv_cache option
     \<Rightarrow> 'q tensor \<Rightarrow> 'a tensor \<Rightarrow> 'a tensor \<Rightarrow> 'm
     \<Rightarrow> error + 'a kv_cache \<times> 'q tensor \<times> 'a tensor \<times> 'a tensor \<times> 'm" where
  "mistral_concatenate_to_cache combine_masks cache query key value attention_mask =
     (case cache of
        None \<Rightarrow>
          Inr (\<lparr>cached_key = zeros (shape key), cached_value = zeros (shape key), cache_index = 0\<rparr>,
               query, key, value, attention_mask)
      | Some c \<Rightarrow>
          (case rev (shape (cached_key c)) of
             dph # nh # ml # rev_bd \<Rightarrow>
               (let bd = rev rev_bd;
                    indices = replicate (length bd) 0 @ [cache_index c, 0, 0]
                in case dynamic_update_slice (cached_key c) key indices of
                     Inl e \<Rightarrow> Inl e
                   | Inr key' \<Rightarrow>
                      (case dynamic_update_slice (cached_value c) value indices of
                         Inl e \<Rightarrow> Inl e
                       | Inr value' \<Rightarrow>
                          (case shape query of
                             _ # num_updated_cache_vector # _ \<Rightarrow>
                               (let new_index = int32 (cache_index c + int num_updated_cache_vector);
                                    pad = pad_mask ml new_index (bd @ [1, num_updated_cache_vector, ml])
                                in case combine_masks pad attention_mask of
                                     Inl e \<Rightarrow> Inl e
                                   | Inr attention_mask' \<Rightarrow>
                                       Inr (\<lparr>cached_key = key', cached_value = value', cache_index = new_index\<rparr>,
                                            query, key', value', attention_mask'))
                           | _ \<Rightarrow> Inl (IndexError ''tuple index out of range''))))
           | _ \<Rightarrow> Inl (ValueError ''not enough values to unpack (expected at least 3)'')))"

text \<open>
  A decode step is the key, value, query and attention mask of one call with an
  active cache; \<open>falcon_step\<close> and \<open>mistral_step\<close> give the state of the cache after
  the call, and \<open>decode_steps\<close> runs a sequence of calls, stopping at the first that
  raises. \<open>step_shaped\<close> says that key and value have the shape
  \<open>batch_dims + (step_len, num_heads, depth_per_head)\<close> and that the query has
  \<open>step_len\<close> as its second dimension; \<open>cache_shaped\<close> that both buffers are well
  formed and have the shape \<open>batch_dims + (max_length, num_heads, depth_per_head)\<close>.
\<close>

type_synonym ('a, 'q, 'm) decode_step = "'a tensor \<times> 'a tensor \<times> 'q tensor \<times> 'm"

definition falcon_step ::
  "(bool tensor \<Rightarrow> 'm \<Rightarrow> error + 'm) \<Rightarrow> 'a::zero kv_cache \<Rightarrow> ('a, 'q, 'm) decode_step
     \<Rightarrow> error + 'a kv_cache" where
  "falcon_step combine_masks c step =
     (case step of (key, value, query, attention_mask) \<Rightarrow>
        map_sum id fst (falcon_concatenate_to_cache combine_masks (Some c) key value query attention_mask))"

definition mistral_step ::
  "(bool tensor \<Rightarrow> 'm \<Rightarrow> error + 'm) \<Rightarrow> 'a::zero kv_cache \<Rightarrow> ('a, 'q, 'm) decode_step
     \<Rightarrow> error + 'a kv_cache" where
  "mistral_step combine_masks c step =
     (case step of (key, value, query, attention_mask) \<Rightarrow>
        map_sum id fst (mistral_concatenate_to_cache combine_masks (Some c) query key value attention_mask))"

fun decode_steps :: "('c \<Rightarrow> 's \<Rightarrow> error + 'c) \<Rightarrow> 'c \<Rightarrow> 's list \<Rightarrow> error + 'c" where
  "decode_steps step c [] = Inr c"
| "decode_steps step c (s # rest) =
     (case step c s of Inl e \<Rightarrow> Inl e | Inr c' \<Rightarrow> decode_steps step c' rest)"

definition step_key :: "('a, 'q, 'm) decode_step \<Rightarrow> 'a tensor" where
  "step_key step = (case step of (key, value, query, attention_mask) \<Rightarrow> key)"

definition step_value :: "('a, 'q, 'm) decode_step \<Rightarrow> 'a tensor" where
  "step_value step = (case step of (key, value, query, attention_mask) \<Rightarrow> value)"

definition step_mask :: "('a, 'q, 'm) decode_step \<Rightarrow> 'm" where
  "step_mask step = (case step of (key, value, query, attention_mask) \<Rightarrow> attention_mask)"

definition step_shaped ::
  "nat list \<Rightarrow> nat \<Rightarrow> nat \<Rightarrow> nat \<Rightarrow> ('a, 'q, 'm) decode_step \<Rightarrow> bool" where
  "step_shaped batch_dims step_len num_heads depth_per_head step =
     (case step of (key, value, query, attention_mask) \<Rightarrow>
        shape key = batch_dims @ [step_len, num_heads, depth_per_head]
      \<and> shape value = batch_dims @ [step_len, num_heads, depth_per_head]
      \<and> 1 < length (shape query) \<and> shape query ! 1 = step_len)"

text \<open>
  \<open>combine_masks\<close> of the neural network library, on two masks: it asserts that they
  have the same rank, takes their \<open>logical_and\<close>, which broadcasts a dimension of size 1
  against the other mask's and raises when two dimensions differ and neither is 1, and
  converts the result to 0 and 1 in the given dtype, here kept as a truth value.
\<close>

definition flax_combine_masks :: "bool tensor \<Rightarrow> bool tensor \<Rightarrow> error + bool tensor" where
  "flax_combine_masks first_mask other_mask =
     (if length (shape first_mask) \<noteq> length (shape other_mask) then
        Inl (AssertionError ''masks must have same rank'')
      else if list_ex (\<lambda>(a, b). a \<noteq> b \<and> a \<noteq> 1 \<and> b \<noteq> 1) (zip (shape first_mask) (shape other_mask)) then
        Inl (ValueError ''Incompatible shapes for broadcasting'')
      else
        (let sh = map (\<lambda>(a, b). if a = 1 then b else a) (zip (shape first_mask) (shape other_mask))
         in Inr \<lparr>shape = sh,
                 elems = map (\<lambda>k. let idx = unravel_index sh k
                                   in at first_mask (map (\<lambda>(i, d). if d = 1 then 0 else i) (zip idx (shape first_mask)))
                                    \<and> at other_mask
                                        (map (\<lambda>(i, d). if d = 1 then 0 else i) (zip idx (shape other_mask))))
                             [0..<prod_list sh]\<rparr>))"

definition cache_shaped :: "'a kv_cache \<Rightarrow> nat list \<Rightarrow> nat \<Rightarrow> nat \<Rightarrow> nat \<Rightarrow> bool" where
  "cache_shaped c batch_dims max_length num_heads depth_per_head =
     (well_formed (cached_key c) \<and> well_formed (cached_value c)
      \<and> shape (cached_key c) = batch_dims @ [max_length, num_heads, depth_per_head]
      \<and> shape (cached_value c) = batch_dims @ [max_length, num_heads, depth_per_head])"

section \<open>Properties of the PartitionSpec resolver\<close>

lemma item_mentions_PNone [simp]: "\<not> item_mentions s PNone"
  by (auto elim: item_mentions.cases)

lemma item_mentions_PName [simp]: "item_mentions s (PName t) \<longleftrightarrow> s = t"
  by (auto elim: item_mentions.cases intro: item_mentions.intros)

lemma item_mentions_PTuple [simp]:
  "item_mentions s (PTuple sub) \<longleftrightarrow> (\<exists>item \<in> set sub. item_mentions s item)"
  by (auto elim: item_mentions.cases intro: item_mentions.intros)

lemma set_get_names_from_items:
  "set (get_names_from_items items) = {s. \<exists>item \<in> set items. item_mentions s item}"
  by (induction items rule: get_names_from_items.induct) auto

lemma distinct_get_names_from_items: "distinct (get_names_from_items items)"
  by (induction items rule: get_names_from_items.induct) auto

lemma set_get_names_from_partition_spec:
  "set (get_names_from_partition_spec ps) = {s. spec_mentions s ps}"
  by (cases ps) (simp_all add: set_get_names_from_items spec_mentions_def spec_items_def)

text \<open>
  Claim C3. For every tensor and every partition spec, \<open>with_sharding_constraint\<close>
  applies the sharding constraint exactly when every axis name mentioned anywhere in the
  spec is an axis of the active mesh; otherwise it returns the tensor unchanged, without
  an error.
\<close>

theorem with_sharding_constraint_applies_iff_names_in_mesh:
  "with_sharding_constraint wsc env x ps =
     (if \<forall>s. spec_mentions s ps \<longrightarrow> s \<in> set (axis_names env) then wsc x ps else Inr x)"
proof -
  have "names_in_mesh env (get_names_from_partition_spec ps)
          \<longleftrightarrow> (\<forall>s. spec_mentions s ps \<longrightarrow> s \<in> set (axis_names env))"
    by (auto simp: names_in_mesh_def set_get_names_from_partition_spec)
  then show ?thesis
    by (simp add: with_sharding_constraint_def)
qed

theorem with_sharding_constraint_applies_iff_names_in_mesh_witness:
  "with_sharding_constraint (\<lambda>x ps. Inr (fst x, Some ps))
      \<lparr>axis_names = [''dp'', ''fsdp'', ''tp'', ''mp'']\<rparr> (''q'', None)
      (PSpec [PTuple [PName ''dp'', PName ''fsdp''], PName ''mp'', PName ''tp'', PNone])
     = Inr (''q'', Some (PSpec [PTuple [PName ''dp'', PName ''fsdp''], PName ''mp'', PName ''tp'', PNone]))
   \<and> with_sharding_constraint (\<lambda>x ps. Inr (fst x, Some ps))
      \<lparr>axis_names = [''dp'', ''fsdp'']\<rparr> (''q'', None)
      (PSpec [PTuple [PName ''dp'', PName ''fsdp''], PName ''mp'', PName ''tp'', PNone])
     = Inr (''q'', None)"
proof -
  have "\<not> (\<forall>s. spec_mentions s (PSpec [PTuple [PName ''dp'', PName ''fsdp''], PName ''mp'', PName ''tp'', PNone])
          \<longrightarrow> s \<in> set (axis_names \<lparr>axis_names = [''dp'', ''fsdp'']\<rparr>))"
    by (auto simp: spec_mentions_def spec_items_def intro!: exI[of _ "''mp''"])
  then show ?thesis
    using with_sharding_constraint_applies_iff_names_in_mesh
      [of "\<lambda>x ps. Inr (fst x, Some ps)" "\<lparr>axis_names = [''dp'', ''fsdp'', ''tp'', ''mp'']\<rparr>" "(''q'', None)"
          "PSpec [PTuple [PName ''dp'', PName ''fsdp''], PName ''mp'', PName ''tp'', PNone]"]
      with_sharding_constraint_applies_iff_names_in_mesh
      [of "\<lambda>x ps. Inr (fst x, Some ps)" "\<lparr>axis_names = [''dp'', ''fsdp'']\<rparr>" "(''q'', None)"
          "PSpec [PTuple [PName ''dp'', PName ''fsdp''], PName ''mp'', PName ''tp'', PNone]"]
    by (auto simp: spec_mentions_def spec_items_def)
qed

section \<open>Properties of the weight conversion\<close>

lemma flax_dict_loop_Cons:
  "flax_dict_loop dtype emb ((key, tensor) # rest) m =
     flax_dict_loop dtype emb rest
       (m(key_names_of emb key tensor \<mapsto> astype dtype (snd (rename_and_transpose emb key tensor))))"
  by (simp add: key_names_of_def case_prod_beta)

lemma flax_dict_loop_other:
  "\<forall>(k, t) \<in> set sd. key_names_of emb k t \<noteq> p \<Longrightarrow> flax_dict_loop dtype emb sd m p = m p"
proof (induction sd arbitrary: m)
  case Nil
  then show ?case by simp
next
  case (Cons e sd)
  obtain k t where e: "e = (k, t)" by (cases e)
  from Cons.prems e have ne: "key_names_of emb k t \<noteq> p" and rest: "\<forall>(k, t) \<in> set sd. key_names_of emb k t \<noteq> p"
    by auto
  show ?case
    using Cons.IH[OF rest] ne
    by (simp add: e flax_dict_loop_Cons del: flax_dict_loop.simps)
qed

lemma fst_rename_and_transpose_tensor_free:
  "fst (rename_and_transpose emb key t) = fst (rename_and_transpose emb key t')"
  by (simp add: rename_and_transpose_def Let_def)

lemma key_names_of_tensor_free: "key_names_of emb key t = key_names_of emb key t'"
  unfolding key_names_of_def using fst_rename_and_transpose_tensor_free[of emb key t t'] by simp

lemma flax_dict_loop_lookup:
  assumes "(key, tensor) \<in> set sd"
    and "distinct (map fst sd)"
    and "\<forall>(k, t) \<in> set sd. k \<noteq> key \<longrightarrow> key_names_of emb k t \<noteq> key_names_of emb key tensor"
  shows "flax_dict_loop dtype emb sd m (key_names_of emb key tensor)
           = Some (astype dtype (snd (rename_and_transpose emb key tensor)))"
  using assms
proof (induction sd arbitrary: m)
  case Nil
  then show ?case by simp
next
  case (Cons e sd)
  obtain k t where e: "e = (k, t)" by (cases e)
  show ?case
  proof (cases "k = key")
    case True
    with Cons.prems e have tt: "t = tensor" and notin: "key \<notin> fst ` set sd"
      by (auto simp: rev_image_eqI)
    from notin Cons.prems(3) have "\<forall>(k', t') \<in> set sd. key_names_of emb k' t' \<noteq> key_names_of emb key tensor"
      by (auto simp: rev_image_eqI)
    then have "flax_dict_loop dtype emb sd
        (m(key_names_of emb key tensor \<mapsto> astype dtype (snd (rename_and_transpose emb key tensor))))
        (key_names_of emb key tensor)
      = (m(key_names_of emb key tensor \<mapsto> astype dtype (snd (rename_and_transpose emb key tensor))))
        (key_names_of emb key tensor)"
      by (rule flax_dict_loop_other)
    then show ?thesis
      by (simp add: e True tt flax_dict_loop_Cons del: flax_dict_loop.simps)
  next
    case False
    with Cons.prems e have mem: "(key, tensor) \<in> set sd" and d: "distinct (map fst sd)"
      and nc: "\<forall>(k, t) \<in> set sd. k \<noteq> key \<longrightarrow> key_names_of emb k t \<noteq> key_names_of emb key tensor"
      by auto
    from Cons.IH[OF mem d nc] show ?thesis
      by (simp add: e flax_dict_loop_Cons del: flax_dict_loop.simps)
  qed
qed


lemma endswith_append [simp]: "endswith (stem @ suffix) suffix"
  by (simp add: endswith_def)

lemma endswith_embedding_not_kernel: "\<not> endswith (stem @ ''.embedding'') ''.kernel''"
  by (simp add: endswith_def)

lemma example_state_dict_distinct: "distinct (map fst example_state_dict)"
  by (simp add: example_state_dict_def)

lemma example_key_names:
  "key_names_of ''wte'' ''wte.weight'' t = [''wte'', ''embedding'']"
  "key_names_of ''wte'' ''fc.kernel.weight'' t = [''fc'', ''kernel'', ''kernel'']"
  "key_names_of ''wte'' ''ln.bias'' t = [''ln'', ''bias'']"
  by (simp_all add: key_names_of_def rename_and_transpose_def match_keywords_def endswith_def)

text \<open>
  Claim C4, as the code has it. Take an entry \<open>(key, tensor)\<close> of the state dictionary to
  whose path no other entry is converted. If the key contains the embedding layer name
  and ends in \<open>.weight\<close>, the tensor is stored as it is under the path with \<open>.weight\<close>
  replaced by \<open>.embedding\<close>. If the key does not contain the embedding layer name and
  matches the kernel rule, the tensor is stored transposed when it is 2-D and as it is
  otherwise, and whatever its rank a key ending in \<open>.weight\<close> is renamed to \<open>.kernel\<close>.
  Every other key keeps its path and its tensor. Each path is the tuple of the dotted
  key's segments, and each tensor is converted to the target dtype.
\<close>

theorem huggingface_to_easydel_rules:
  assumes "distinct (map fst state_dict)"
    and "(key, tensor) \<in> set state_dict"
    and "\<forall>(k, t) \<in> set state_dict. k \<noteq> key \<longrightarrow> key_names_of emb k t \<noteq> key_names_of emb key tensor"
  shows "huggingface_to_easydel unflatten_dict dtype state_dict emb
           = unflatten_dict (flax_dict_loop dtype emb state_dict Map.empty)
     \<and> (\<forall>stem. str_in emb key \<and> key = stem @ ''.weight'' \<longrightarrow>
          flax_dict_loop dtype emb state_dict Map.empty (split_on CHR ''.'' (stem @ ''.embedding''))
            = Some (astype dtype tensor))
     \<and> (\<forall>stem. \<not> str_in emb key \<and> match_keywords key [''kernel''] [''none''] \<and> key = stem @ ''.weight'' \<longrightarrow>
          flax_dict_loop dtype emb state_dict Map.empty (split_on CHR ''.'' (stem @ ''.kernel''))
            = Some (astype dtype (if length (shape tensor) = 2 then transpose_0_1 tensor else tensor)))
     \<and> (\<not> str_in emb key \<and> match_keywords key [''kernel''] [''none''] \<and> \<not> endswith key ''.weight'' \<longrightarrow>
          flax_dict_loop dtype emb state_dict Map.empty (split_on CHR ''.'' key)
            = Some (astype dtype (if length (shape tensor) = 2 then transpose_0_1 tensor else tensor)))
     \<and> (\<not> str_in emb key \<and> \<not> match_keywords key [''kernel''] [''none''] \<longrightarrow>
          flax_dict_loop dtype emb state_dict Map.empty (split_on CHR ''.'' key)
            = Some (astype dtype tensor))"
proof -
  note look = flax_dict_loop_lookup[OF assms(2) assms(1) assms(3), of dtype Map.empty]
  have a: "huggingface_to_easydel unflatten_dict dtype state_dict emb
           = unflatten_dict (flax_dict_loop dtype emb state_dict Map.empty)"
    by (simp add: huggingface_to_easydel_def)
  have b: "flax_dict_loop dtype emb state_dict Map.empty (split_on CHR ''.'' (stem @ ''.embedding''))
            = Some (astype dtype tensor)"
    if "str_in emb key" "key = stem @ ''.weight''" for stem
    using look that by (simp add: key_names_of_def rename_and_transpose_def)
  have c: "flax_dict_loop dtype emb state_dict Map.empty (split_on CHR ''.'' (stem @ ''.kernel''))
            = Some (astype dtype (if length (shape tensor) = 2 then transpose_0_1 tensor else tensor))"
    if "\<not> str_in emb key" "match_keywords key [''kernel''] [''none'']" "key = stem @ ''.weight''" for stem
    using look that by (simp add: key_names_of_def rename_and_transpose_def)
  have d: "flax_dict_loop dtype emb state_dict Map.empty (split_on CHR ''.'' key)
            = Some (astype dtype (if length (shape tensor) = 2 then transpose_0_1 tensor else tensor))"
    if "\<not> str_in emb key" "match_keywords key [''kernel''] [''none'']" "\<not> endswith key ''.weight''"
    using look that by (simp add: key_names_of_def rename_and_transpose_def)
  have e: "flax_dict_loop dtype emb state_dict Map.empty (split_on CHR ''.'' key)
            = Some (astype dtype tensor)"
    if "\<not> str_in emb key" "\<not> match_keywords key [''kernel''] [''none'']"
    using look that by (simp add: key_names_of_def rename_and_transpose_def)
  from a b c d e show ?thesis by blast
qed

theorem huggingface_to_easydel_rules_witness:
  "flax_dict_loop (\<lambda>x. x) ''wte'' example_state_dict Map.empty [''wte'', ''embedding'']
     = Some \<lparr>shape = [2, 3], elems = [1, 2, 3, 4, 5, 6]\<rparr>
   \<and> flax_dict_loop (\<lambda>x. x) ''wte'' example_state_dict Map.empty [''fc'', ''kernel'', ''kernel'']
     = Some \<lparr>shape = [3, 2], elems = [1, 4, 2, 5, 3, 6]\<rparr>
   \<and> flax_dict_loop (\<lambda>x. x) ''wte'' example_state_dict Map.empty [''ln'', ''bias'']
     = Some \<lparr>shape = [3], elems = [7, 8, 9]\<rparr>"
proof -
  have m1: "(''wte.weight'', \<lparr>shape = [2, 3], elems = [1, 2, 3, 4, 5, 6]\<rparr>) \<in> set example_state_dict"
   and m2: "(''fc.kernel.weight'', \<lparr>shape = [2, 3], elems = [1, 2, 3, 4, 5, 6]\<rparr>) \<in> set example_state_dict"
   and m3: "(''ln.bias'', \<lparr>shape = [3], elems = [7, 8, 9]\<rparr>) \<in> set example_state_dict"
    by (simp_all add: example_state_dict_def)
  have n1: "\<forall>(k, t) \<in> set example_state_dict. k \<noteq> ''wte.weight'' \<longrightarrow>
      key_names_of ''wte'' k t \<noteq> key_names_of ''wte'' ''wte.weight'' \<lparr>shape = [2, 3], elems = [1, 2, 3, 4, 5, 6]\<rparr>"
   and n2: "\<forall>(k, t) \<in> set example_state_dict. k \<noteq> ''fc.kernel.weight'' \<longrightarrow>
      key_names_of ''wte'' k t \<noteq> key_names_of ''wte'' ''fc.kernel.weight'' \<lparr>shape = [2, 3], elems = [1, 2, 3, 4, 5, 6]\<rparr>"
   and n3: "\<forall>(k, t) \<in> set example_state_dict. k \<noteq> ''ln.bias'' \<longrightarrow>
      key_names_of ''wte'' k t \<noteq> key_names_of ''wte'' ''ln.bias'' \<lparr>shape = [3], elems = [7, 8, 9]\<rparr>"
    by (simp_all add: example_state_dict_def example_key_names)
  have s: "str_in ''wte'' ''wte.weight''" "\<not> str_in ''wte'' ''fc.kernel.weight''" "\<not> str_in ''wte'' ''ln.bias''"
    "match_keywords ''fc.kernel.weight'' [''kernel''] [''none'']"
    "\<not> match_keywords ''ln.bias'' [''kernel''] [''none'']"
    by (simp_all add: match_keywords_def)
  have t: "transpose_0_1 \<lparr>shape = [2, 3], elems = [1, 2, 3, 4, 5, 6::int]\<rparr> = \<lparr>shape = [3, 2], elems = [1, 4, 2, 5, 3, 6]\<rparr>"
    by (simp add: transpose_0_1_def upt_conv_Cons)
  from huggingface_to_easydel_rules[OF example_state_dict_distinct m1 n1, of id "\<lambda>x. x"]
       huggingface_to_easydel_rules[OF example_state_dict_distinct m2 n2, of id "\<lambda>x. x"]
       huggingface_to_easydel_rules[OF example_state_dict_distinct m3 n3, of id "\<lambda>x. x"]
  show ?thesis
    using s t by (simp add: astype_def)
qed

text \<open>
  The claim as written lets every path other than an embedding path or the path of a 2-D
  kernel tensor pass unchanged. A 1-D tensor under a key that matches the kernel rule is
  renamed all the same: nothing is stored under its own path.
\<close>

theorem huggingface_to_easydel_rules_counterexample:
  "huggingface_to_easydel (\<lambda>flax_dict. flax_dict) (\<lambda>x. x)
      [(''ln.kernel.weight'', \<lparr>shape = [3], elems = [7, 8, 9::int]\<rparr>)] ''wte'' [''ln'', ''kernel'', ''weight''] = None
   \<and> huggingface_to_easydel (\<lambda>flax_dict. flax_dict) (\<lambda>x. x)
      [(''ln.kernel.weight'', \<lparr>shape = [3], elems = [7, 8, 9::int]\<rparr>)] ''wte'' [''ln'', ''kernel'', ''kernel'']
       = Some \<lparr>shape = [3], elems = [7, 8, 9]\<rparr>"
  by (simp add: huggingface_to_easydel_def rename_and_transpose_def match_keywords_def endswith_def astype_def)

text \<open>
  Claim C10. The embedding rule takes precedence over the kernel rule: for every key that
  contains the embedding layer name the tensor is passed on as it is (never transposed)
  and the new key ends in \<open>.embedding\<close>, never in \<open>.kernel\<close>, also for a 2-D tensor
  under a key that satisfies the kernel rule; the tensor stored under the new path is the
  unchanged tensor in the target dtype.
\<close>

theorem embedding_rule_takes_precedence:
  assumes "str_in emb key"
  shows "rename_and_transpose emb key tensor = (take (length key - 7) key @ ''.embedding'', tensor)
     \<and> \<not> endswith (fst (rename_and_transpose emb key tensor)) ''.kernel''
     \<and> ((key, tensor) \<in> set state_dict \<and> distinct (map fst state_dict)
          \<and> (\<forall>(k, t) \<in> set state_dict. k \<noteq> key \<longrightarrow> key_names_of emb k t \<noteq> key_names_of emb key tensor)
        \<longrightarrow> flax_dict_loop dtype emb state_dict Map.empty (split_on CHR ''.'' (take (length key - 7) key @ ''.embedding''))
              = Some (astype dtype tensor))"
proof -
  have r: "rename_and_transpose emb key tensor = (take (length key - 7) key @ ''.embedding'', tensor)"
    using assms by (simp add: rename_and_transpose_def eval_nat_numeral)
  have k: "\<not> endswith (fst (rename_and_transpose emb key tensor)) ''.kernel''"
    by (simp add: r endswith_embedding_not_kernel)
  have l: "flax_dict_loop dtype emb state_dict Map.empty (split_on CHR ''.'' (take (length key - 7) key @ ''.embedding''))
              = Some (astype dtype tensor)"
    if "(key, tensor) \<in> set state_dict" "distinct (map fst state_dict)"
       "\<forall>(k, t) \<in> set state_dict. k \<noteq> key \<longrightarrow> key_names_of emb k t \<noteq> key_names_of emb key tensor"
    using flax_dict_loop_lookup[OF that, of dtype Map.empty] by (simp add: key_names_of_def r)
  from r k l show ?thesis by blast
qed

theorem embedding_rule_takes_precedence_witness:
  "rename_and_transpose ''kernel'' ''kernel.weight'' \<lparr>shape = [2, 3], elems = [1, 2, 3, 4, 5, 6::int]\<rparr>
     = (''kernel.embedding'', \<lparr>shape = [2, 3], elems = [1, 2, 3, 4, 5, 6]\<rparr>)
   \<and> match_keywords ''kernel.weight'' [''kernel''] [''none'']
   \<and> flax_dict_loop (\<lambda>x. x) ''kernel''
        [(''kernel.weight'', \<lparr>shape = [2, 3], elems = [1, 2, 3, 4, 5, 6::int]\<rparr>)] Map.empty [''kernel'', ''embedding'']
       = Some \<lparr>shape = [2, 3], elems = [1, 2, 3, 4, 5, 6]\<rparr>"
proof -
  have s: "str_in ''kernel'' ''kernel.weight''" by simp
  from embedding_rule_takes_precedence[OF s,
        of "\<lparr>shape = [2, 3], elems = [1, 2, 3, 4, 5, 6::int]\<rparr>"
           "[(''kernel.weight'', \<lparr>shape = [2, 3], elems = [1, 2, 3, 4, 5, 6::int]\<rparr>)]" "\<lambda>x. x"]
  show ?thesis
    by (simp add: match_keywords_def astype_def)
qed

section \<open>Properties of the attention dispatcher\<close>

lemma smart_flash_attention_valid_shapes:
  assumes "array_shape q = [b, h, ql, d]" and "array_shape k = [b, h, kl, d]"
    and "array_shape v = [b, h, kl, d]" and "array_shape bias = [b, h, ql, kl]"
  shows "smart_flash_attention platform wsc env q k v bias q_ps k_ps v_ps b_ps a_ps
           blk_k blk_q blk_b ql kl h d is_causal mesh out_dtype force_float32_tpu is_deterministic =
     (case get_flash_attention platform of
        Inl e \<Rightarrow> Inl e
      | Inr (flash_attn_fn, f32_upcast, do_shard_map) \<Rightarrow>
          if do_shard_map then
            (case mesh of
               None \<Rightarrow> Inl (AssertionError ''For Using Shard Map on GPUs you have to pass Mesh'')
             | Some m \<Rightarrow>
                 (case with_sharding_constraint wsc env
                         (ShardMapCall flash_attn_fn ''mp'' f32_upcast
                            \<lparr>deterministic = is_deterministic, causal = is_causal,
                             query_chunk_size = blk_q, key_chunk_size = blk_k, kw_dtype = out_dtype\<rparr>
                            m [q_ps, k_ps, v_ps, b_ps] a_ps
                            [Transpose_0_2_1_3 q, Transpose_0_2_1_3 k, Transpose_0_2_1_3 v, bias])
                         (PSpec a_ps) of
                    Inl e \<Rightarrow> Inl e
                  | Inr attn_output \<Rightarrow> Inr (OutAsType attn_output out_dtype)))
          else
            (let qkv = (if force_float32_tpu \<or> f32_upcast
                        then [AsType q float32, AsType k float32, AsType v float32]
                        else [q, k, v])
             in Inr (OutAsType
                  (LocalCall jax_flash_attn_tpu_flash_attention (qkv @ [bias])
                     \<lparr>block_b = blk_b, block_k = blk_k, block_q = blk_q, block_k_major = blk_k\<rparr>)
                  out_dtype)))"
  using assms by (simp add: smart_flash_attention_def)

text \<open>
  Claim C2. The dispatcher selects its kernel by platform. \<open>get_flash_attention\<close> gives
  the ring flash-attention kernel with a shard map on \<open>gpu\<close>, the TPU kernel with float32
  logits and no shard map on \<open>tpu\<close>, and raises \<open>ValueError\<close> "Unsupported platform" for
  every other platform. For inputs that pass the shape assertions,
  \<open>smart_flash_attention\<close> on \<open>gpu\<close> fails with an assertion error when the mesh is
  \<open>None\<close> and otherwise calls the ring kernel through \<open>shard_map\<close> over the axis \<open>mp\<close>
  of the mesh; on \<open>tpu\<close> it calls the chunked flash-attention kernel locally on q, k, v
  converted to float32, whatever \<open>force_float32_tpu\<close> says; on every other platform it
  fails with the "Unsupported platform" error.
\<close>

theorem attention_dispatch_by_platform:
  assumes "array_shape q = [b, h, ql, d]" and "array_shape k = [b, h, kl, d]"
    and "array_shape v = [b, h, kl, d]" and "array_shape bias = [b, h, ql, kl]"
  shows "get_flash_attention ''gpu'' = Inr (ring_flash_attention_gpu, False, True)
    \<and> get_flash_attention ''tpu'' = Inr (tpu_flash_attention, True, False)
    \<and> (platform \<noteq> ''gpu'' \<and> platform \<noteq> ''tpu'' \<longrightarrow>
         get_flash_attention platform = Inl (ValueError (''Unsupported platform '' @ platform)))
    \<and> smart_flash_attention ''gpu'' wsc env q k v bias q_ps k_ps v_ps b_ps a_ps
         blk_k blk_q blk_b ql kl h d is_causal None out_dtype force_float32_tpu is_deterministic
       = Inl (AssertionError ''For Using Shard Map on GPUs you have to pass Mesh'')
    \<and> smart_flash_attention ''gpu'' wsc env q k v bias q_ps k_ps v_ps b_ps a_ps
         blk_k blk_q blk_b ql kl h d is_causal (Some m) out_dtype force_float32_tpu is_deterministic
       = (case with_sharding_constraint wsc env
                 (ShardMapCall ring_flash_attention_gpu ''mp'' False
                    \<lparr>deterministic = is_deterministic, causal = is_causal,
                     query_chunk_size = blk_q, key_chunk_size = blk_k, kw_dtype = out_dtype\<rparr>
                    m [q_ps, k_ps, v_ps, b_ps] a_ps
                    [Transpose_0_2_1_3 q, Transpose_0_2_1_3 k, Transpose_0_2_1_3 v, bias])
                 (PSpec a_ps) of
            Inl e \<Rightarrow> Inl e
          | Inr attn_output \<Rightarrow> Inr (OutAsType attn_output out_dtype))
    \<and> smart_flash_attention ''tpu'' wsc env q k v bias q_ps k_ps v_ps b_ps a_ps
         blk_k blk_q blk_b ql kl h d is_causal mesh out_dtype force_float32_tpu is_deterministic
       = Inr (OutAsType
            (LocalCall jax_flash_attn_tpu_flash_attention
               [AsType q float32, AsType k float32, AsType v float32, bias]
               \<lparr>block_b = blk_b, block_k = blk_k, block_q = blk_q, block_k_major = blk_k\<rparr>)
            out_dtype)
    \<and> (platform \<noteq> ''gpu'' \<and> platform \<noteq> ''tpu'' \<longrightarrow>
         smart_flash_attention platform wsc env q k v bias q_ps k_ps v_ps b_ps a_ps
           blk_k blk_q blk_b ql kl h d is_causal mesh out_dtype force_float32_tpu is_deterministic
         = Inl (ValueError (''Unsupported platform '' @ platform)))"
  by (simp add: smart_flash_attention_valid_shapes[OF assms] get_flash_attention_def)


theorem attention_dispatch_by_platform_witness:
  "smart_flash_attention ''gpu'' (\<lambda>x ps. Inr x) \<lparr>axis_names = [''dp'', ''fsdp'', ''tp'', ''mp'']\<rparr>
      (Array ''q'' [1, 2, 3, 4] float16) (Array ''k'' [1, 2, 5, 4] float16)
      (Array ''v'' [1, 2, 5, 4] float16) (Array ''bias'' [1, 2, 3, 5] float16)
      [PName ''dp''] [PName ''dp''] [PName ''dp''] [PName ''dp''] [PName ''dp'']
      128 128 1 3 5 2 4 False None float16 False True
     = Inl (AssertionError ''For Using Shard Map on GPUs you have to pass Mesh'')
   \<and> smart_flash_attention ''gpu'' (\<lambda>x ps. Inr x) \<lparr>axis_names = [''dp'', ''fsdp'', ''tp'', ''mp'']\<rparr>
      (Array ''q'' [1, 2, 3, 4] float16) (Array ''k'' [1, 2, 5, 4] float16)
      (Array ''v'' [1, 2, 5, 4] float16) (Array ''bias'' [1, 2, 3, 5] float16)
      [PName ''dp''] [PName ''dp''] [PName ''dp''] [PName ''dp''] [PName ''dp'']
      128 128 1 3 5 2 4 False (Some \<lparr>axis_names = [''dp'', ''fsdp'', ''tp'', ''mp'']\<rparr>) float16 False True
     = Inr (OutAsType
         (ShardMapCall ring_flash_attention_gpu ''mp'' False
            \<lparr>deterministic = True, causal = False, query_chunk_size = 128, key_chunk_size = 128,
             kw_dtype = float16\<rparr>
            \<lparr>axis_names = [''dp'', ''fsdp'', ''tp'', ''mp'']\<rparr>
            [[PName ''dp''], [PName ''dp''], [PName ''dp''], [PName ''dp'']] [PName ''dp'']
            [Transpose_0_2_1_3 (Array ''q'' [1, 2, 3, 4] float16),
             Transpose_0_2_1_3 (Array ''k'' [1, 2, 5, 4] float16),
             Transpose_0_2_1_3 (Array ''v'' [1, 2, 5, 4] float16),
             Array ''bias'' [1, 2, 3, 5] float16])
         float16)
   \<and> smart_flash_attention ''tpu'' (\<lambda>x ps. Inr x) \<lparr>axis_names = [''dp'', ''fsdp'', ''tp'', ''mp'']\<rparr>
      (Array ''q'' [1, 2, 3, 4] float16) (Array ''k'' [1, 2, 5, 4] float16)
      (Array ''v'' [1, 2, 5, 4] float16) (Array ''bias'' [1, 2, 3, 5] float16)
      [PName ''dp''] [PName ''dp''] [PName ''dp''] [PName ''dp''] [PName ''dp'']
      128 128 1 3 5 2 4 False None float16 False True
     = Inr (OutAsType
         (LocalCall jax_flash_attn_tpu_flash_attention
            [AsType (Array ''q'' [1, 2, 3, 4] float16) float32,
             AsType (Array ''k'' [1, 2, 5, 4] float16) float32,
             AsType (Array ''v'' [1, 2, 5, 4] float16) float32,
             Array ''bias'' [1, 2, 3, 5] float16]
            \<lparr>block_b = 1, block_k = 128, block_q = 128, block_k_major = 128\<rparr>)
         float16)
   \<and> smart_flash_attention ''cpu'' (\<lambda>x ps. Inr x) \<lparr>axis_names = [''dp'', ''fsdp'', ''tp'', ''mp'']\<rparr>
      (Array ''q'' [1, 2, 3, 4] float16) (Array ''k'' [1, 2, 5, 4] float16)
      (Array ''v'' [1, 2, 5, 4] float16) (Array ''bias'' [1, 2, 3, 5] float16)
      [PName ''dp''] [PName ''dp''] [PName ''dp''] [PName ''dp''] [PName ''dp'']
      128 128 1 3 5 2 4 False None float16 False True
     = Inl (ValueError ''Unsupported platform cpu'')"
proof -
  have q: "array_shape (Array ''q'' [1, 2, 3, 4] float16) = [1, 2, 3, 4]"
   and k: "array_shape (Array ''k'' [1, 2, 5, 4] float16) = [1, 2, 5, 4]"
   and v: "array_shape (Array ''v'' [1, 2, 5, 4] float16) = [1, 2, 5, 4]"
   and b: "array_shape (Array ''bias'' [1, 2, 3, 5] float16) = [1, 2, 3, 5]"
    by simp_all
  have c: "''cpu'' \<noteq> ''gpu''" "''cpu'' \<noteq> ''tpu''" by simp_all
  from attention_dispatch_by_platform[OF q k v b,
         where platform = "''cpu''" and wsc = "\<lambda>x ps. Inr x"
           and env = "\<lparr>axis_names = [''dp'', ''fsdp'', ''tp'', ''mp'']\<rparr>"
           and m = "\<lparr>axis_names = [''dp'', ''fsdp'', ''tp'', ''mp'']\<rparr>" and mesh = None
           and q_ps = "[PName ''dp'']" and k_ps = "[PName ''dp'']" and v_ps = "[PName ''dp'']"
           and b_ps = "[PName ''dp'']" and a_ps = "[PName ''dp'']"
           and blk_k = 128 and blk_q = 128 and blk_b = 1 and is_causal = False
           and out_dtype = float16 and force_float32_tpu = False and is_deterministic = True]
  show ?thesis
    using c by (simp add: with_sharding_constraint_def names_in_mesh_def)
qed

section \<open>Properties of the call of a pretrained model\<close>

lemma int32_id: "- (2 ^ 31) \<le> x \<Longrightarrow> x < 2 ^ 31 \<Longrightarrow> int32 x = x"
  by (simp add: int32_def)

lemma broadcast_arange_row:
  "b < n \<Longrightarrow> i < s \<Longrightarrow> concat (replicate n (map int [0..<s])) ! (b * s + i) = int i"
proof (induction n arbitrary: b)
  case 0
  then show ?case by simp
next
  case (Suc n)
  show ?case
  proof (cases b)
    case 0
    with Suc.prems show ?thesis by (simp add: nth_append)
  next
    case (Suc b')
    with Suc.prems Suc.IH[of b'] show ?thesis by (simp add: nth_append)
  qed
qed

lemma length_broadcast_arange: "length (concat (replicate n (map int [0..<s]))) = n * s"
  by (induction n) simp_all

lemma as_i4_broadcast_arange_nth:
  assumes "b < batch_size" and "i < sequence_length" and "int i < 2 ^ 31"
  shows "elems (as_i4 (broadcast_arange batch_size sequence_length)) ! (b * sequence_length + i) = int i"
proof -
  have "b * sequence_length + i < Suc b * sequence_length"
    using assms(2) by simp
  also have "\<dots> \<le> batch_size * sequence_length"
    using assms(1) by (intro mult_le_mono1) simp
  finally have lt: "b * sequence_length + i < batch_size * sequence_length" .
  show ?thesis
    using lt assms(3) broadcast_arange_row[OF assms(1,2)]
    by (simp add: as_i4_def broadcast_arange_def length_broadcast_arange int32_id)
qed

lemma insert_cache_None: "insert_cache inputs None = Inr (inputs, False)"
  by (simp add: insert_cache_def)

text \<open>
  Mistral tests \<open>position_ids\<close> before anything else can raise: on a batch of id
  sequences, a call with \<open>past_key_values\<close> supplied and \<open>position_ids\<close> omitted raises
  the \<open>ValueError\<close> that asks for \<open>position_ids\<close>. Falcon raises that error only if the
  insertion of the cache went through: when the cache is not empty and the inputs are
  a \<open>FrozenDict\<close>, the insertion raises first. With \<open>past_key_values\<close> absent as well,
  neither method raises and the network receives the position ids
  \<open>0, 1, ..., sequence_length - 1\<close> in every row of the batch.
\<close>

theorem call_position_ids_with_cache:
  fixes cache :: "'c pydict"
  assumes "shape input_ids = [batch_size, sequence_length]"
  shows "mistral_call_apply_args input_ids attention_mask None params (Some cache) self_params add_params_field
           = Inl (ValueError position_ids_required)
    \<and> falcon_call_apply_args input_ids attention_mask None (Some cache) params self_params add_params_field
           = (if dict_items cache \<noteq> []
                 \<and> isl (setitem (call_inputs params self_params add_params_field) ''cache'' (DictValue cache))
              then Inl (ValueError ''FrozenDict is immutable.'')
              else Inl (ValueError position_ids_required))
    \<and> (\<exists>args. mistral_call_apply_args input_ids attention_mask None params None self_params add_params_field
                  = Inr args
           \<and> arg_position_ids args = as_i4 (broadcast_arange batch_size sequence_length))
    \<and> (\<exists>args. falcon_call_apply_args input_ids attention_mask None None params self_params add_params_field
                  = Inr args
           \<and> arg_position_ids args = as_i4 (broadcast_arange batch_size sequence_length))
    \<and> (\<forall>b < batch_size. \<forall>i < sequence_length. int i < 2 ^ 31 \<longrightarrow>
          elems (as_i4 (broadcast_arange batch_size sequence_length)) ! (b * sequence_length + i) = int i)"
proof (intro conjI)
  show "mistral_call_apply_args input_ids attention_mask None params (Some cache) self_params add_params_field
           = Inl (ValueError position_ids_required)"
    using assms by (simp add: mistral_call_apply_args_def)
  show "falcon_call_apply_args input_ids attention_mask None (Some cache) params self_params add_params_field
           = (if dict_items cache \<noteq> []
                 \<and> isl (setitem (call_inputs params self_params add_params_field) ''cache'' (DictValue cache))
              then Inl (ValueError ''FrozenDict is immutable.'')
              else Inl (ValueError position_ids_required))"
    by (simp add: falcon_call_apply_args_def insert_cache_def setitem_def Let_def
             split: pydict.splits)
  show "\<exists>args. mistral_call_apply_args input_ids attention_mask None params None self_params add_params_field
                  = Inr args
           \<and> arg_position_ids args = as_i4 (broadcast_arange batch_size sequence_length)"
    using assms by (simp add: mistral_call_apply_args_def insert_cache_None Let_def)
  have sh: "shape (as_i4 input_ids) = [batch_size, sequence_length]"
    using assms by (simp add: as_i4_def)
  show "\<exists>args. falcon_call_apply_args input_ids attention_mask None None params self_params add_params_field
                  = Inr args
           \<and> arg_position_ids args = as_i4 (broadcast_arange batch_size sequence_length)"
    by (cases attention_mask) (simp_all add: falcon_call_apply_args_def insert_cache_None Let_def sh)
  show "\<forall>b < batch_size. \<forall>i < sequence_length. int i < 2 ^ 31 \<longrightarrow>
          elems (as_i4 (broadcast_arange batch_size sequence_length)) ! (b * sequence_length + i) = int i"
    using as_i4_broadcast_arange_nth by blast
qed

theorem call_position_ids_with_cache_witness:
  "mistral_call_apply_args \<lparr>shape = [2, 3], elems = [5, 6, 7, 8, 9, 10]\<rparr> None None None
       (Some (Dict [(''layer'', ArrayValue ())])) (Dict [(''params'', ArrayValue ())]) False
     = Inl (ValueError position_ids_required)
   \<and> falcon_call_apply_args \<lparr>shape = [2, 3], elems = [5, 6, 7, 8, 9, 10]\<rparr> None None
       (Some (Dict [(''layer'', ArrayValue ())])) None (Dict [(''params'', ArrayValue ())]) False
     = Inl (ValueError position_ids_required)
   \<and> map_sum id arg_position_ids
        (mistral_call_apply_args \<lparr>shape = [2, 3], elems = [5, 6, 7, 8, 9, 10]\<rparr> None None None None
           (Dict [(''params'', ArrayValue ())]) False)
     = Inr \<lparr>shape = [2, 3], elems = [0, 1, 2, 0, 1, 2]\<rparr>
   \<and> map_sum id arg_position_ids
        (falcon_call_apply_args \<lparr>shape = [2, 3], elems = [5, 6, 7, 8, 9, 10]\<rparr> None None None None
           (Dict [(''params'', ArrayValue ())]) False)
     = Inr \<lparr>shape = [2, 3], elems = [0, 1, 2, 0, 1, 2]\<rparr>"
proof -
  have sh: "shape \<lparr>shape = [2, 3], elems = [5, 6, 7, 8, 9, 10 :: int]\<rparr> = [2, 3]" by simp
  have ar: "as_i4 (broadcast_arange 2 3) = \<lparr>shape = [2, 3], elems = [0, 1, 2, 0, 1, 2]\<rparr>"
    by (simp add: as_i4_def int32_def broadcast_arange_def eval_nat_numeral upt_conv_Cons)
  from call_position_ids_with_cache[OF sh, of None None "Dict [(''layer'', ArrayValue ())]"
         "Dict [(''params'', ArrayValue ())]" False]
  show ?thesis
    by (auto simp: ar setitem_def call_inputs_def params_or_self_def dict_items_def)
qed

text \<open>
  Claim C9, at the input where Falcon misses it. The parameters are a \<open>FrozenDict\<close>,
  the cache has one entry and \<open>position_ids\<close> is omitted: Falcon's \<open>__call__\<close> raises
  \<open>FrozenDict is immutable.\<close> from \<open>inputs["cache"] = past_key_values\<close> and never
  reaches the test of \<open>position_ids\<close>; Mistral's \<open>__call__\<close>, which tests first, asks
  for \<open>position_ids\<close> on the same arguments.
\<close>

theorem falcon_call_raises_before_position_ids_test:
  "falcon_call_apply_args \<lparr>shape = [1, 2], elems = [5, 6]\<rparr> None None
       (Some (Dict [(''layer'', ArrayValue ())])) (Some (FrozenDict [(''params'', ArrayValue ())]))
       (FrozenDict [(''params'', ArrayValue ())]) False
     = Inl (ValueError ''FrozenDict is immutable.'')
   \<and> mistral_call_apply_args \<lparr>shape = [1, 2], elems = [5, 6]\<rparr> None None
       (Some (FrozenDict [(''params'', ArrayValue ())])) (Some (Dict [(''layer'', ArrayValue ())]))
       (FrozenDict [(''params'', ArrayValue ())]) False
     = Inl (ValueError position_ids_required)"
  by (simp add: falcon_call_apply_args_def mistral_call_apply_args_def insert_cache_def setitem_def
        call_inputs_def params_or_self_def dict_items_def Let_def)

section \<open>Properties of add\_jax\_args\<close>

lemma assign_all_lookup:
  "assign_all xs self k = (case map_of (rev xs) k of Some v \<Rightarrow> Some v | None \<Rightarrow> self k)"
proof (induction xs arbitrary: self)
  case Nil
  then show ?case by simp
next
  case (Cons x xs)
  obtain name v where x: "x = (name, v)" by (cases x)
  have "assign_all (x # xs) self k = assign_all xs (self(name \<mapsto> v)) k"
    by (simp add: x)
  also have "\<dots> = (case map_of (rev xs) k of Some v' \<Rightarrow> Some v' | None \<Rightarrow> (self(name \<mapsto> v)) k)"
    by (rule Cons.IH)
  also have "\<dots> = (case map_of (rev (x # xs)) k of Some v' \<Rightarrow> Some v' | None \<Rightarrow> self k)"
    by (simp add: x map_add_def split: option.split)
  finally show ?case .
qed

lemma map_of_rev_distinct: "distinct (map fst xs) \<Longrightarrow> map_of (rev xs) = map_of xs"
  by (induction xs) (auto simp: map_add_def fun_eq_iff split: option.splits dest: map_of_SomeD intro: rev_image_eqI)

lemma map_fst_sharding_assignments: "map fst (sharding_assignments sh) = sharding_fields"
  by (simp add: sharding_assignments_def sharding_fields_def)

lemma distinct_sharding_fields: "distinct sharding_fields"
  by (simp add: sharding_fields_def)


lemma map_of_rev_sharding_assignments:
  "map_of (rev (sharding_assignments sh)) = sharding_value sh"
  unfolding sharding_value_def
  by (rule map_of_rev_distinct) (simp add: map_fst_sharding_assignments distinct_sharding_fields)

lemma fst_set_sharding_assignments:
  "fst ` set (sharding_assignments sh) = set sharding_fields"
  using arg_cong[OF map_fst_sharding_assignments, of set sh] by simp

lemma sharding_value_None: "k \<notin> set sharding_fields \<Longrightarrow> sharding_value sh k = None"
  unfolding sharding_value_def
  by (simp add: map_of_eq_None_iff fst_set_sharding_assignments)

lemma sharding_value_Some: "k \<in> set sharding_fields \<Longrightarrow> \<exists>v. sharding_value sh k = Some v"
proof -
  assume "k \<in> set sharding_fields"
  then have "k \<in> fst ` set (sharding_assignments sh :: (string \<times> 'a attr_value) list)"
    by (simp add: fst_set_sharding_assignments)
  then have "map_of (sharding_assignments sh :: (string \<times> 'a attr_value) list) k \<noteq> None"
    by (simp add: map_of_eq_None_iff)
  then show ?thesis
    by (auto simp: sharding_value_def)
qed

lemma set_missing_lookup:
  "set_missing basics self k = (case self k of Some v \<Rightarrow> Some v | None \<Rightarrow> map_of basics k)"
proof (induction basics arbitrary: self)
  case Nil
  then show ?case by (simp split: option.split)
next
  case (Cons x basics)
  obtain key_state value_state where x: "x = (key_state, value_state)" by (cases x)
  show ?case
  proof (cases "self key_state")
    case None
    have "set_missing (x # basics) self k = set_missing basics (self(key_state \<mapsto> value_state)) k"
      by (simp add: x None)
    also have "\<dots> = (case (self(key_state \<mapsto> value_state)) k of Some v \<Rightarrow> Some v | None \<Rightarrow> map_of basics k)"
      by (rule Cons.IH)
    also have "\<dots> = (case self k of Some v \<Rightarrow> Some v | None \<Rightarrow> map_of (x # basics) k)"
      using None by (simp add: x split: option.split)
    finally show ?thesis .
  next
    case (Some w)
    have "set_missing (x # basics) self k = set_missing basics self k"
      by (simp add: x Some)
    also have "\<dots> = (case self k of Some v \<Rightarrow> Some v | None \<Rightarrow> map_of basics k)"
      by (rule Cons.IH)
    also have "\<dots> = (case self k of Some v \<Rightarrow> Some v | None \<Rightarrow> map_of (x # basics) k)"
      using Some by (auto simp: x split: option.split)
    finally show ?thesis .
  qed
qed

lemma from_pt_not_sharding_field: "''from_pt'' \<notin> set sharding_fields"
  by (simp add: sharding_fields_def)

lemma falcon_add_jax_args_lookup:
  "falcon_add_jax_args self sh basics k =
     (if k = ''from_pt'' then Some (ABool False)
      else if k \<in> set sharding_fields then sharding_value sh k
      else (case self k of Some v \<Rightarrow> Some v | None \<Rightarrow> map_of basics k))"
proof -
  have a: "assign_all (sharding_assignments sh) self k
             = (case sharding_value sh k of Some v \<Rightarrow> Some v | None \<Rightarrow> self k)"
    by (simp add: assign_all_lookup map_of_rev_sharding_assignments)
  show ?thesis
  proof (cases "k \<in> set sharding_fields")
    case True
    then obtain v where "sharding_value sh k = (Some v :: 'a attr_value option)"
      using sharding_value_Some by blast
    then show ?thesis
      using True by (simp add: falcon_add_jax_args_def Let_def set_missing_lookup a)
  next
    case False
    then have "sharding_value sh k = (None :: 'a attr_value option)"
      by (rule sharding_value_None)
    then show ?thesis
      using False by (simp add: falcon_add_jax_args_def Let_def set_missing_lookup a)
  qed
qed

lemma mistral_add_jax_args_sharding:
  assumes "k \<in> set sharding_fields"
  shows "mistral_add_jax_args self a sh k = sharding_value sh k"
proof -
  obtain v where "sharding_value sh k = (Some v :: 'a attr_value option)"
    using sharding_value_Some[OF assms] by blast
  then show ?thesis
    by (simp add: mistral_add_jax_args_def assign_all_lookup map_add_def
                  map_of_rev_sharding_assignments)
qed

lemma assign_all_idem: "assign_all xs (assign_all xs self) = assign_all xs self"
  by (rule ext) (simp add: assign_all_lookup split: option.split)

lemma falcon_add_jax_args_idem:
  "falcon_add_jax_args (falcon_add_jax_args self sh basics) sh basics = falcon_add_jax_args self sh basics"
  by (rule ext) (simp add: falcon_add_jax_args_lookup split: option.split)

lemma mistral_add_jax_args_idem:
  "mistral_add_jax_args (mistral_add_jax_args self a sh) a sh = mistral_add_jax_args self a sh"
  by (simp add: mistral_add_jax_args_def assign_all_idem)

lemma map_fst_mistral_assignments: "map fst (mistral_assignments a) = mistral_fields"
  by (simp add: mistral_assignments_def mistral_fields_def)

lemma distinct_mistral_names: "distinct (mistral_fields @ sharding_fields)"
  by (simp add: mistral_fields_def sharding_fields_def)

lemma mistral_add_jax_args_lookup:
  "mistral_add_jax_args self a sh k =
     (case map_of (mistral_assignments a @ sharding_assignments sh) k of
        Some v \<Rightarrow> Some v
      | None \<Rightarrow> self k)"
proof -
  have "distinct (map fst (mistral_assignments a @ sharding_assignments sh))"
    using distinct_mistral_names
    by (simp only: map_append map_fst_mistral_assignments map_fst_sharding_assignments)
  from map_of_rev_distinct[OF this] show ?thesis
    by (simp only: mistral_add_jax_args_def assign_all_lookup)
qed

lemma mistral_add_jax_args_own:
  shows
    "mistral_add_jax_args self a sh ''use_flash_attention'' = Some (ABool (use_flash_attention a))" and
    "mistral_add_jax_args self a sh ''number_rep_kv'' = Some (AInt (number_rep_kv a))" and
    "mistral_add_jax_args self a sh ''gradient_checkpointing'' = Some (AStr (gradient_checkpointing a))" and
    "mistral_add_jax_args self a sh ''use_pjit_attention_force'' = Some (ABool (use_pjit_attention_force a))" and
    "mistral_add_jax_args self a sh ''use_sacn_mlp'' = Some (ABool (use_sacn_mlp a))" and
    "mistral_add_jax_args self a sh ''flash_attn_query_chunk_size'' = Some (AInt (flash_attn_query_chunk_size a))" and
    "mistral_add_jax_args self a sh ''flash_attn_key_chunk_size'' = Some (AInt (flash_attn_key_chunk_size a))" and
    "mistral_add_jax_args self a sh ''scan_mlp_chunk_size'' = Some (AInt (scan_mlp_chunk_size a))" and
    "mistral_add_jax_args self a sh ''attn_pdrop'' = Some (AFloat (attn_pdrop a))" and
    "mistral_add_jax_args self a sh ''c_max_position_embeddings'' = Some (AInt (c_max_position_embeddings a))" and
    "mistral_add_jax_args self a sh ''freq_max_position_embeddings'' = Some (opt_int (freq_max_position_embeddings a))" and
    "mistral_add_jax_args self a sh ''bits'' = Some (opt_int (bits a))"
  by (simp_all add: mistral_add_jax_args_lookup mistral_assignments_def)

lemma mistral_add_jax_args_other:
  assumes "k \<notin> set sharding_fields" and "k \<notin> set mistral_fields"
  shows "mistral_add_jax_args self a sh k = self k"
proof -
  have "k \<notin> set (map fst (mistral_assignments a @ sharding_assignments sh))"
    using assms by (simp only: map_append map_fst_mistral_assignments map_fst_sharding_assignments set_append) simp
  then have "map_of (mistral_assignments a @ sharding_assignments sh) k = None"
    by (simp add: map_of_eq_None_iff)
  then show ?thesis
    by (simp only: mistral_add_jax_args_lookup option.case)
qed

text \<open>
  Claim C6, as the code has it. \<open>add_jax_args\<close> is idempotent: calling it twice with the
  same arguments gives the same configuration as calling it once, in Falcon and in
  Mistral. It assigns every sharding field (\<open>axis_names\<close>, \<open>axis_dims\<close>, \<open>q_ps\<close>,
  \<open>k_ps\<close>, \<open>v_ps\<close>, \<open>b_ps\<close>, \<open>a_ps\<close>, \<open>backend\<close>) from its arguments whether or not
  the attribute exists, and Falcon assigns \<open>from_pt\<close>. Falcon fills in every other
  attribute only if it is not already present and otherwise keeps its value. Mistral
  assigns each of its twelve own fields from its arguments as well, whether or not the
  attribute exists, and leaves every other attribute as it is.
\<close>

theorem add_jax_args_assigns_sharding_fields:
  "falcon_add_jax_args (falcon_add_jax_args self sh basics) sh basics = falcon_add_jax_args self sh basics
   \<and> mistral_add_jax_args (mistral_add_jax_args self' a sh') a sh' = mistral_add_jax_args self' a sh'
   \<and> (\<forall>k \<in> set sharding_fields.
         falcon_add_jax_args self sh basics k = sharding_value sh k
         \<and> mistral_add_jax_args self' a sh' k = sharding_value sh' k)
   \<and> falcon_add_jax_args self sh basics ''from_pt'' = Some (ABool False)
   \<and> (\<forall>k. k \<notin> set sharding_fields \<and> k \<noteq> ''from_pt'' \<longrightarrow>
         falcon_add_jax_args self sh basics k
           = (case self k of Some v \<Rightarrow> Some v | None \<Rightarrow> map_of basics k))
   \<and> mistral_add_jax_args self' a sh' ''use_flash_attention'' = Some (ABool (use_flash_attention a))
   \<and> mistral_add_jax_args self' a sh' ''number_rep_kv'' = Some (AInt (number_rep_kv a))
   \<and> mistral_add_jax_args self' a sh' ''gradient_checkpointing'' = Some (AStr (gradient_checkpointing a))
   \<and> mistral_add_jax_args self' a sh' ''use_pjit_attention_force'' = Some (ABool (use_pjit_attention_force a))
   \<and> mistral_add_jax_args self' a sh' ''use_sacn_mlp'' = Some (ABool (use_sacn_mlp a))
   \<and> mistral_add_jax_args self' a sh' ''flash_attn_query_chunk_size'' = Some (AInt (flash_attn_query_chunk_size a))
   \<and> mistral_add_jax_args self' a sh' ''flash_attn_key_chunk_size'' = Some (AInt (flash_attn_key_chunk_size a))
   \<and> mistral_add_jax_args self' a sh' ''scan_mlp_chunk_size'' = Some (AInt (scan_mlp_chunk_size a))
   \<and> mistral_add_jax_args self' a sh' ''attn_pdrop'' = Some (AFloat (attn_pdrop a))
   \<and> mistral_add_jax_args self' a sh' ''c_max_position_embeddings'' = Some (AInt (c_max_position_embeddings a))
   \<and> mistral_add_jax_args self' a sh' ''freq_max_position_embeddings'' = Some (opt_int (freq_max_position_embeddings a))
   \<and> mistral_add_jax_args self' a sh' ''bits'' = Some (opt_int (bits a))
   \<and> (\<forall>k. k \<notin> set sharding_fields \<and> k \<notin> set mistral_fields \<longrightarrow>
         mistral_add_jax_args self' a sh' k = self' k)"
proof -
  have sf: "\<forall>k \<in> set sharding_fields. k \<noteq> ''from_pt''"
    using from_pt_not_sharding_field by blast
  have falcon: "falcon_add_jax_args (falcon_add_jax_args self sh basics) sh basics = falcon_add_jax_args self sh basics
   \<and> mistral_add_jax_args (mistral_add_jax_args self' a sh') a sh' = mistral_add_jax_args self' a sh'
   \<and> (\<forall>k \<in> set sharding_fields.
         falcon_add_jax_args self sh basics k = sharding_value sh k
         \<and> mistral_add_jax_args self' a sh' k = sharding_value sh' k)
   \<and> falcon_add_jax_args self sh basics ''from_pt'' = Some (ABool False)
   \<and> (\<forall>k. k \<notin> set sharding_fields \<and> k \<noteq> ''from_pt'' \<longrightarrow>
         falcon_add_jax_args self sh basics k
           = (case self k of Some v \<Rightarrow> Some v | None \<Rightarrow> map_of basics k))"
    using sf
    by (simp add: falcon_add_jax_args_idem mistral_add_jax_args_idem mistral_add_jax_args_sharding
                  falcon_add_jax_args_lookup)
  have other: "\<forall>k. k \<notin> set sharding_fields \<and> k \<notin> set mistral_fields \<longrightarrow>
         mistral_add_jax_args self' a sh' k = self' k"
    using mistral_add_jax_args_other by blast
  show ?thesis
    by (intro conjI falcon[THEN conjunct1] falcon[THEN conjunct2, THEN conjunct1]
          falcon[THEN conjunct2, THEN conjunct2, THEN conjunct1]
          falcon[THEN conjunct2, THEN conjunct2, THEN conjunct2, THEN conjunct1]
          falcon[THEN conjunct2, THEN conjunct2, THEN conjunct2, THEN conjunct2]
          other mistral_add_jax_args_own)
qed

theorem add_jax_args_assigns_sharding_fields_witness:
  "falcon_add_jax_args [''vocab_size'' \<mapsto> AInt 100 :: unit attr_value] falcon_default_sharding_args
      [(''vocab_size'', AInt 65024), (''hidden_size'', AInt 4544)] ''vocab_size'' = Some (AInt 100)
   \<and> falcon_add_jax_args [''vocab_size'' \<mapsto> AInt 100 :: unit attr_value] falcon_default_sharding_args
      [(''vocab_size'', AInt 65024), (''hidden_size'', AInt 4544)] ''hidden_size'' = Some (AInt 4544)
   \<and> falcon_add_jax_args [''vocab_size'' \<mapsto> AInt 100 :: unit attr_value] falcon_default_sharding_args
      [(''vocab_size'', AInt 65024), (''hidden_size'', AInt 4544)] ''axis_dims'' = Some (ADims [1, - 1, 1, 1])
   \<and> mistral_add_jax_args [''freq_max_position_embeddings'' \<mapsto> AInt 4096] default_mistral_jax_args
      mistral_default_sharding_args ''axis_dims'' = Some (ADims [1, - 1, 1, 1])
   \<and> mistral_add_jax_args [''freq_max_position_embeddings'' \<mapsto> AInt 4096] default_mistral_jax_args
      mistral_default_sharding_args ''freq_max_position_embeddings'' = Some ANone
   \<and> mistral_add_jax_args [''vocab_size'' \<mapsto> AInt 100] default_mistral_jax_args
      mistral_default_sharding_args ''vocab_size'' = Some (AInt 100)"
proof -
  note t = add_jax_args_assigns_sharding_fields
    [of "[''vocab_size'' \<mapsto> AInt 100 :: unit attr_value]" falcon_default_sharding_args
        "[(''vocab_size'', AInt 65024), (''hidden_size'', AInt 4544)]"
        "[''freq_max_position_embeddings'' \<mapsto> AInt 4096]" default_mistral_jax_args
        mistral_default_sharding_args]
  note u = add_jax_args_assigns_sharding_fields
    [of "[''vocab_size'' \<mapsto> AInt 100 :: unit attr_value]" falcon_default_sharding_args
        "[(''vocab_size'', AInt 65024), (''hidden_size'', AInt 4544)]"
        "[''vocab_size'' \<mapsto> AInt 100]" default_mistral_jax_args
        mistral_default_sharding_args]
  note s = t[THEN conjunct2, THEN conjunct2, THEN conjunct1]
  note o = t[THEN conjunct2, THEN conjunct2, THEN conjunct2, THEN conjunct2, THEN conjunct1]
  note f = t[THEN conjunct2, THEN conjunct2, THEN conjunct2, THEN conjunct2, THEN conjunct2,
             THEN conjunct2, THEN conjunct2, THEN conjunct2, THEN conjunct2, THEN conjunct2,
             THEN conjunct2, THEN conjunct2, THEN conjunct2, THEN conjunct2, THEN conjunct2,
             THEN conjunct1]
  note r = u[THEN conjunct2, THEN conjunct2, THEN conjunct2, THEN conjunct2, THEN conjunct2,
             THEN conjunct2, THEN conjunct2, THEN conjunct2, THEN conjunct2, THEN conjunct2,
             THEN conjunct2, THEN conjunct2, THEN conjunct2, THEN conjunct2, THEN conjunct2,
             THEN conjunct2, THEN conjunct2]
  have m: "''axis_dims'' \<in> set sharding_fields" "''vocab_size'' \<notin> set sharding_fields"
    "''hidden_size'' \<notin> set sharding_fields" "''vocab_size'' \<notin> set mistral_fields"
    by (simp_all add: sharding_fields_def mistral_fields_def)
  have v: "sharding_value falcon_default_sharding_args ''axis_dims'' = Some (ADims [1, - 1, 1, 1] :: unit attr_value)"
    "sharding_value mistral_default_sharding_args ''axis_dims'' = Some (ADims [1, - 1, 1, 1] :: unit attr_value)"
    by (simp_all add: sharding_value_def sharding_assignments_def falcon_default_sharding_args_def
          mistral_default_sharding_args_def)
  have d: "opt_int (freq_max_position_embeddings default_mistral_jax_args) = (ANone :: unit attr_value)"
    by (simp add: opt_int_def default_mistral_jax_args_def)
  from s[rule_format, OF m(1)] o[rule_format, of "''vocab_size''"] o[rule_format, of "''hidden_size''"]
    f r[rule_format, of "''vocab_size''"] m v d
  show ?thesis
    by simp
qed

text \<open>
  The claim as written says that no existing attribute is ever overwritten. A
  configuration that holds \<open>axis_dims = (2, 2, 1, 1)\<close> holds \<open>(1, -1, 1, 1)\<close> after
  \<open>add_jax_args\<close> with its default arguments.
\<close>

theorem add_jax_args_overwrites_counterexample:
  "falcon_add_jax_args [''axis_dims'' \<mapsto> ADims [2, 2, 1, 1] :: unit attr_value] falcon_default_sharding_args []
      ''axis_dims'' = Some (ADims [1, - 1, 1, 1])
   \<and> mistral_add_jax_args [''axis_dims'' \<mapsto> ADims [2, 2, 1, 1]] default_mistral_jax_args
      mistral_default_sharding_args ''axis_dims'' = Some (ADims [1, - 1, 1, 1])"
proof -
  have m: "''axis_dims'' \<in> set sharding_fields" "''axis_dims'' \<noteq> ''from_pt''"
    by (simp_all add: sharding_fields_def)
  have v: "sharding_value falcon_default_sharding_args ''axis_dims'' = Some (ADims [1, - 1, 1, 1] :: unit attr_value)"
    "sharding_value mistral_default_sharding_args ''axis_dims'' = Some (ADims [1, - 1, 1, 1] :: unit attr_value)"
    by (simp_all add: sharding_value_def sharding_assignments_def falcon_default_sharding_args_def
          mistral_default_sharding_args_def)
  show ?thesis
    using m v by (simp add: falcon_add_jax_args_lookup mistral_add_jax_args_sharding)
qed

section \<open>Properties of the device mesh builder\<close>

lemma filter_one_unknown:
  assumes "- 1 \<notin> set pre" and "- 1 \<notin> set post"
  shows "filter (\<lambda>d. d \<noteq> - 1) (pre @ [- 1] @ post) = pre @ (post :: int list)"
proof -
  have "filter (\<lambda>d. d \<noteq> - 1) pre = pre" "filter (\<lambda>d. d \<noteq> - 1) post = post"
    using assms by (auto simp: filter_id_conv)
  then show ?thesis by simp
qed

lemma map_resolve_one_unknown:
  assumes "- 1 \<notin> set pre" and "- 1 \<notin> set post"
  shows "map (\<lambda>d. if d = - 1 then r else nat d) (pre @ [- 1] @ post) = map nat pre @ [r] @ map nat (post :: int list)"
  using assms by (auto simp: map_eq_conv)

lemma prod_list_map_nat:
  "\<forall>d \<in> set ds. 0 \<le> d \<Longrightarrow> prod_list (map nat ds) = nat (prod_list ds)"
  by (induction ds) (simp_all add: nat_mult_distrib prod_list_nonneg)

lemma reshape_shape_one_unknown:
  assumes "- 1 \<notin> set pre" and "- 1 \<notin> set post"
  shows "reshape_shape sz (pre @ [- 1] @ post) =
     (if list_ex (\<lambda>d. d < 0) (pre @ post) then Inl (TypeError ''negative dimensions are not allowed'')
      else if prod_list (pre @ post) = 0 \<or> int sz mod prod_list (pre @ post) \<noteq> 0 then
        Inl (TypeError ''cannot reshape: the specified axis sizes do not evenly divide the size'')
      else Inr (map nat pre @ [sz div nat (prod_list (pre @ post))] @ map nat post))"
  unfolding reshape_shape_def Let_def filter_one_unknown[OF assms] map_resolve_one_unknown[OF assms]
  by simp


lemma prod_list_int_pos: "\<forall>d \<in> set ds. 0 < d \<Longrightarrow> 0 < prod_list (ds :: int list)"
  by (induction ds) simp_all

lemma create_mesh_one_unknown_fails:
  assumes "- 1 \<notin> set pre" and "- 1 \<notin> set post"
    and "jax_devices backend = Some n" and "0 < n"
    and "\<not> prod_list (pre @ post) dvd int n"
  shows "\<exists>e. create_mesh jax_devices (pre @ [- 1] @ post) names backend = Inl e"
proof -
  have "prod_list (pre @ post) = 0 \<or> int n mod prod_list (pre @ post) \<noteq> 0"
    using assms(5) by (auto simp: mod_eq_0_iff_dvd)
  then show ?thesis
    using assms(3)
    by (simp add: create_mesh_def reshape_shape_one_unknown[OF assms(1,2)] del: append.simps prod_list.append)
qed

lemma create_mesh_one_unknown_resolves:
  assumes "- 1 \<notin> set pre" and "- 1 \<notin> set post"
    and "length names = length pre + 1 + length post"
    and "jax_devices backend = Some n" and "jax_devices '''' = Some n"
    and "\<forall>d \<in> set (pre @ post). 0 < d"
    and "prod_list (pre @ post) dvd int n"
  shows "create_mesh jax_devices (pre @ [- 1] @ post) names backend
           = Inr \<lparr>axis_names = names,
                  devices_shape = map nat pre @ [n div nat (prod_list (pre @ post))] @ map nat post\<rparr>"
proof -
  let ?p = "prod_list (pre @ post)"
  have pos: "0 < ?p"
    using assms(6) by (rule prod_list_int_pos)
  have nonneg: "\<not> list_ex (\<lambda>d. d < 0) (pre @ post)"
  proof
    assume "list_ex (\<lambda>d. d < 0) (pre @ post)"
    then obtain d where d: "d \<in> set (pre @ post)" "d < 0"
      unfolding list_ex_iff by blast
    from assms(6) d(1) have "0 < d" by blast
    with d(2) show False by simp
  qed
  have dv: "nat ?p dvd n"
    using assms(7) pos by (metis nat_dvd_iff nat_int order_less_imp_le)
  have md: "int n mod ?p = 0"
    using assms(7) by (simp add: mod_eq_0_iff_dvd)
  have resh: "reshape_shape n (pre @ [- 1] @ post)
                = Inr (map nat pre @ [n div nat ?p] @ map nat post)"
    using pos nonneg md by (simp add: reshape_shape_one_unknown[OF assms(1,2)] del: append.simps prod_list.append)
  have "prod_list (map nat pre @ [n div nat ?p] @ map nat post)
          = prod_list (map nat (pre @ post)) * (n div nat ?p)"
    by (simp add: mult.commute mult.left_commute)
  also have "\<dots> = nat ?p * (n div nat ?p)"
    using assms(6) by (subst prod_list_map_nat) (auto intro: less_imp_le)
  also have "\<dots> = n"
    using dv by simp
  finally have pr: "prod_list (map nat pre @ [n div nat ?p] @ map nat post) = n" .
  show ?thesis
    using assms(3,4,5) pr
    by (simp add: create_mesh_def resh create_device_mesh_def Mesh_def del: append.simps prod_list.append)
qed

text \<open>
  Where the backend has as many devices as the default backend, \<open>create_mesh\<close> does
  resolve the \<open>-1\<close>. Let \<open>axis_dims\<close> be four integers with exactly one entry \<open>-1\<close>, at
  position \<open>length pre\<close>, let the four axis names be distinct, and let the backend have
  \<open>n > 0\<close> devices, as many as the default backend. If the product of the other entries does not
  divide \<open>n\<close>, \<open>create_mesh\<close> fails. If the other entries are positive and their product
  divides \<open>n\<close>, \<open>create_mesh\<close> returns a mesh in which the axis of the \<open>-1\<close> entry has
  size \<open>n\<close> divided by that product and every other axis has the size given:
  \<open>(1, -1, 1, 1)\<close> on 8 devices gives \<open>mesh.shape['fsdp'] = 8\<close>.
\<close>

theorem create_mesh_resolves_unknown_axis:
  assumes "axis_dims = pre @ [- 1] @ post" and "- 1 \<notin> set pre" and "- 1 \<notin> set post"
    and "length axis_dims = 4" and "length names = 4" and "distinct names"
    and "jax_devices backend = Some n" and "jax_devices '''' = Some n" and "0 < n"
  shows "(\<not> prod_list (pre @ post) dvd int n \<longrightarrow>
            (\<exists>e. create_mesh jax_devices axis_dims names backend = Inl e))
     \<and> ((\<forall>d \<in> set (pre @ post). 0 < d) \<and> prod_list (pre @ post) dvd int n \<longrightarrow>
            (\<exists>m. create_mesh jax_devices axis_dims names backend = Inr m
               \<and> axis_names m = names
               \<and> shape_of_mesh m (names ! length pre) = Some (n div nat (prod_list (pre @ post)))
               \<and> (\<forall>j < 4. j \<noteq> length pre \<longrightarrow> shape_of_mesh m (names ! j) = Some (nat (axis_dims ! j)))))"
proof (intro conjI impI)
  assume "\<not> prod_list (pre @ post) dvd int n"
  from create_mesh_one_unknown_fails[of pre post jax_devices backend n names, OF assms(2,3,7,9) this]
  show "\<exists>e. create_mesh jax_devices axis_dims names backend = Inl e"
    by (simp only: assms(1))
next
  assume a: "(\<forall>d \<in> set (pre @ post). 0 < d) \<and> prod_list (pre @ post) dvd int n"
  let ?r = "n div nat (prod_list (pre @ post))"
  let ?sh = "map nat pre @ [?r] @ map nat post"
  let ?m = "\<lparr>axis_names = names, devices_shape = ?sh\<rparr>"
  have len: "length names = length pre + 1 + length post"
    using assms(1,4,5) by simp
  have cm: "create_mesh jax_devices axis_dims names backend = Inr ?m"
    using create_mesh_one_unknown_resolves[of pre post names jax_devices backend n, OF assms(2,3) len assms(7,8)] a
    unfolding assms(1) by blast
  have lsh: "length names = length ?sh"
    using len by simp
  have look: "shape_of_mesh ?m (names ! j) = Some (?sh ! j)" if "j < 4" for j
    using map_of_zip_nth[OF lsh assms(6), of j] that assms(5) lsh
    by (simp add: shape_of_mesh_def)
  have i: "length pre < 4"
    using assms(1,4) by simp
  have at_i: "?sh ! length pre = ?r"
    by (simp add: nth_append)
  have at_j: "?sh ! j = nat (axis_dims ! j)" if "j < 4" "j \<noteq> length pre" for j
  proof (cases "j < length pre")
    case True
    then show ?thesis by (simp add: assms(1) nth_append)
  next
    case False
    with that have gt: "length pre < j" by simp
    then obtain k where k: "j = length pre + 1 + k"
      by (metis Suc_eq_plus1 less_iff_Suc_add add.assoc add.commute)
    have "k < length post"
      using that(1) k assms(1,4) by simp
    then show ?thesis
      by (simp add: assms(1) k nth_append)
  qed
  show "\<exists>m. create_mesh jax_devices axis_dims names backend = Inr m
               \<and> axis_names m = names
               \<and> shape_of_mesh m (names ! length pre) = Some (n div nat (prod_list (pre @ post)))
               \<and> (\<forall>j < 4. j \<noteq> length pre \<longrightarrow> shape_of_mesh m (names ! j) = Some (nat (axis_dims ! j)))"
    using cm look[OF i] at_i look at_j by (intro exI[of _ ?m]) simp
qed


theorem create_mesh_resolves_unknown_axis_witness:
  "map_sum id (\<lambda>m. shape_of_mesh m ''fsdp'')
      (create_mesh ['''' \<mapsto> 8] [1, - 1, 1, 1] [''dp'', ''fsdp'', ''tp'', ''mp''] '''') = Inr (Some 8)
   \<and> isl (create_mesh ['''' \<mapsto> 8] [3, - 1, 1, 1] [''dp'', ''fsdp'', ''tp'', ''mp''] '''')"
proof -
  have d: "distinct [''dp'', ''fsdp'', ''tp'', ''mp'']" by simp
  have j: "['''' \<mapsto> 8 :: nat] '''' = Some 8" by simp
  note ok = create_mesh_resolves_unknown_axis
    [of "[1, - 1, 1, 1]" "[1]" "[1, 1]" "[''dp'', ''fsdp'', ''tp'', ''mp'']" "['''' \<mapsto> 8]" "''''" 8,
     OF _ _ _ _ _ d j j, THEN conjunct2, THEN mp]
  have "\<exists>m. create_mesh ['''' \<mapsto> 8] [1, - 1, 1, 1] [''dp'', ''fsdp'', ''tp'', ''mp''] '''' = Inr m
          \<and> axis_names m = [''dp'', ''fsdp'', ''tp'', ''mp'']
          \<and> shape_of_mesh m ([''dp'', ''fsdp'', ''tp'', ''mp''] ! length [1 :: int]) = Some (8 div nat (prod_list ([1] @ [1, 1])))
          \<and> (\<forall>j < 4. j \<noteq> length [1 :: int] \<longrightarrow>
                shape_of_mesh m ([''dp'', ''fsdp'', ''tp'', ''mp''] ! j) = Some (nat ([1, - 1, 1, 1] ! j)))"
    by (rule ok) simp_all
  then obtain m where m: "create_mesh ['''' \<mapsto> 8] [1, - 1, 1, 1] [''dp'', ''fsdp'', ''tp'', ''mp''] '''' = Inr m"
    and s: "shape_of_mesh m ([''dp'', ''fsdp'', ''tp'', ''mp''] ! length [1 :: int]) = Some (8 div nat (prod_list ([1] @ [1, 1])))"
    by (elim exE conjE)
  have first: "map_sum id (\<lambda>m. shape_of_mesh m ''fsdp'')
      (create_mesh ['''' \<mapsto> 8] [1, - 1, 1, 1] [''dp'', ''fsdp'', ''tp'', ''mp''] '''') = Inr (Some 8)"
    using s by (simp add: m)
  note bad = create_mesh_resolves_unknown_axis
    [of "[3, - 1, 1, 1]" "[3]" "[1, 1]" "[''dp'', ''fsdp'', ''tp'', ''mp'']" "['''' \<mapsto> 8]" "''''" 8,
     OF _ _ _ _ _ d j j, THEN conjunct1, THEN mp]
  have "\<exists>e. create_mesh ['''' \<mapsto> 8] [3, - 1, 1, 1] [''dp'', ''fsdp'', ''tp'', ''mp''] '''' = Inl e"
    by (rule bad) simp_all
  then obtain e where "create_mesh ['''' \<mapsto> 8] [3, - 1, 1, 1] [''dp'', ''fsdp'', ''tp'', ''mp''] '''' = Inl e"
    by (elim exE)
  then have second: "isl (create_mesh ['''' \<mapsto> 8] [3, - 1, 1, 1] [''dp'', ''fsdp'', ''tp'', ''mp''] '''')"
    by simp
  from first second show ?thesis by (rule conjI)
qed

text \<open>
  Claim C7, at the input where the code misses it. The default backend has 8 devices
  and the backend \<open>cpu\<close> has 4. \<open>create_mesh((1, -1, 1, 1), names, "cpu")\<close> counts the 4
  devices of \<open>cpu\<close> and resolves the \<open>-1\<close> to 4, but calls \<open>create_device_mesh\<close> without
  those devices: it takes the 8 devices of the default backend, which do not fill a mesh
  of shape \<open>(1, 4, 1, 1)\<close>, and raises. On the default backend the same dims give a mesh
  with \<open>fsdp = 8\<close>.
\<close>

theorem create_mesh_ignores_backend_devices:
  "create_mesh ['''' \<mapsto> 8, ''cpu'' \<mapsto> 4] [1, - 1, 1, 1] [''dp'', ''fsdp'', ''tp'', ''mp''] ''cpu''
     = Inl (ValueError ''Number of devices must equal the product of mesh_shape'')
   \<and> reshape_shape 4 [1, - 1, 1, 1] = Inr [1, 4, 1, 1]
   \<and> map_sum id (\<lambda>m. shape_of_mesh m ''fsdp'')
        (create_mesh ['''' \<mapsto> 8, ''cpu'' \<mapsto> 4] [1, - 1, 1, 1] [''dp'', ''fsdp'', ''tp'', ''mp''] '''')
     = Inr (Some 8)"
  by (simp add: create_mesh_def reshape_shape_def create_device_mesh_def Mesh_def shape_of_mesh_def Let_def)

section \<open>Properties of the key/value cache\<close>

lemma ravel_multi_index_less:
  "valid_index sh idx \<Longrightarrow> ravel_multi_index sh idx < prod_list sh"
  unfolding valid_index_def
proof (induction idx sh rule: list_all2_induct)
  case Nil
  then show ?case by simp
next
  case (Cons i idx n sh)
  have "i * prod_list sh + ravel_multi_index sh idx < i * prod_list sh + prod_list sh"
    using Cons.IH by simp
  also have "\<dots> = Suc i * prod_list sh" by simp
  also have "\<dots> \<le> n * prod_list sh"
    using Cons.hyps(1) by (intro mult_le_mono1) simp
  finally show ?case by simp
qed

lemma unravel_ravel:
  "valid_index sh idx \<Longrightarrow> unravel_index sh (ravel_multi_index sh idx) = idx"
  unfolding valid_index_def
proof (induction idx sh rule: list_all2_induct)
  case Nil
  then show ?case by simp
next
  case (Cons i idx n sh)
  have r: "ravel_multi_index sh idx < prod_list sh"
    using Cons.hyps(2) by (intro ravel_multi_index_less) (simp add: valid_index_def)
  then show ?case
    using Cons.IH by simp
qed


lemma dynamic_update_slice_shape:
  assumes "dynamic_update_slice operand update start_indices = Inr r"
    and "well_formed operand"
  shows "shape r = shape operand" and "well_formed r"
  using assms by (auto simp add: dynamic_update_slice_def Let_def well_formed_def split: if_splits)

lemma dynamic_update_slice_at:
  assumes "dynamic_update_slice operand update start_indices = Inr r"
    and "well_formed operand"
    and "valid_index (shape operand) idx"
  shows "at r idx =
          (let starts = clamp_starts start_indices (shape operand) (shape update)
           in if in_window idx starts (shape update)
              then at update (map (\<lambda>(i, s). i - s) (zip idx starts))
              else at operand idx)"
proof -
  let ?starts = "clamp_starts start_indices (shape operand) (shape update)"
  let ?f = "\<lambda>k. let idx = unravel_index (shape operand) k
                 in if in_window idx ?starts (shape update)
                    then elems update !
                           ravel_multi_index (shape update) (map (\<lambda>(i, s). i - s) (zip idx ?starts))
                    else elems operand ! k"
  have r: "r = \<lparr>shape = shape operand, elems = map ?f [0..<length (elems operand)]\<rparr>"
    using assms(1) by (simp add: dynamic_update_slice_def Let_def split: if_splits)
  have lt: "ravel_multi_index (shape operand) idx < length (elems operand)"
    using ravel_multi_index_less[OF assms(3)] assms(2) by (simp add: well_formed_def)
  have "at r idx = ?f (ravel_multi_index (shape operand) idx)"
    using lt by (simp add: r at_def Let_def del: upt_Suc cong: if_cong)
  then show ?thesis
    by (simp add: unravel_ravel[OF assms(3)] at_def Let_def)
qed

lemma no_update_dim_exceeds:
  "s \<le> L \<Longrightarrow> \<not> list_ex (\<lambda>(u, n). n < u) (zip (bd @ [s, H, D]) (bd @ [L, H, D :: nat]))"
  by (auto simp add: list_ex_iff zip_same)

lemma clamp_start_same: "clamp_start 0 n n = 0"
  by (simp add: clamp_start_def)

lemma clamp_starts_batch:
  "map (\<lambda>(i, n, u). clamp_start i n u) (zip (replicate (length bd) 0) (zip bd bd)) = replicate (length bd) 0"
  by (induction bd) (simp_all add: clamp_start_same)

lemma clamp_starts_cache:
  "clamp_starts (replicate (length bd) 0 @ [cur, 0, 0]) (bd @ [L, H, D]) (bd @ [s, H, D])
     = replicate (length bd) 0 @ [clamp_start cur L s, 0, 0]"
  by (simp add: clamp_starts_def clamp_starts_batch clamp_start_same)

lemma valid_index_length: "valid_index sh idx \<Longrightarrow> length idx = length sh"
  by (simp add: valid_index_def list_all2_lengthD)

lemma valid_index_append:
  "valid_index bd bidx \<Longrightarrow> valid_index (bd @ sh) (bidx @ idx) = valid_index sh idx"
  by (simp add: valid_index_def list_all2_append list_all2_lengthD)

lemma in_window_batch:
  "valid_index bd bidx \<Longrightarrow>
     list_all2 (\<lambda>i (s, u). s \<le> i \<and> i < s + u) bidx (zip (replicate (length bd) 0) bd)"
  unfolding valid_index_def by (induction rule: list_all2_induct) simp_all

lemma in_window_cache:
  assumes "valid_index bd bidx" and "h < H" and "d < D"
  shows "in_window (bidx @ [i, h, d]) (replicate (length bd) 0 @ [c, 0, 0]) (bd @ [s, H, D])
           = (c \<le> i \<and> i < c + s)"
  using in_window_batch[OF assms(1)] valid_index_length[OF assms(1)] assms(2,3)
  by (simp add: in_window_def list_all2_append)

lemma minus_starts_batch:
  "map (\<lambda>(i, s). i - s) (zip bidx (replicate (length bidx) (0::nat))) = bidx"
  by (induction bidx) simp_all

lemma minus_starts_cache:
  "length bidx = n \<Longrightarrow>
     map (\<lambda>(i, s). i - s) (zip (bidx @ [i, h, d]) (replicate n 0 @ [c, 0, 0])) = bidx @ [i - c, h, d :: nat]"
  by (auto simp add: minus_starts_batch)

lemma dynamic_update_slice_cache:
  assumes wf: "well_formed operand"
    and op: "shape operand = bd @ [L, H, D]"
    and up: "shape update = bd @ [s, H, D]"
    and sl: "s \<le> L"
  shows "\<exists>r. dynamic_update_slice operand update (replicate (length bd) 0 @ [cur, 0, 0]) = Inr r
           \<and> shape r = bd @ [L, H, D] \<and> well_formed r
           \<and> (\<forall>bidx i h d. valid_index bd bidx \<and> i < L \<and> h < H \<and> d < D \<longrightarrow>
                 at r (bidx @ [i, h, d]) =
                   (if clamp_start cur L s \<le> i \<and> i < clamp_start cur L s + s
                    then at update (bidx @ [i - clamp_start cur L s, h, d])
                    else at operand (bidx @ [i, h, d])))"
proof -
  let ?st = "replicate (length bd) 0 @ [cur, 0, 0]"
  have "\<not> isl (dynamic_update_slice operand update ?st)"
    using no_update_dim_exceeds[OF sl, of bd H D]
    by (simp add: dynamic_update_slice_def op up Let_def)
  then obtain r where r: "dynamic_update_slice operand update ?st = Inr r"
    by (cases "dynamic_update_slice operand update ?st") simp_all
  have el: "at r (bidx @ [i, h, d]) =
                   (if clamp_start cur L s \<le> i \<and> i < clamp_start cur L s + s
                    then at update (bidx @ [i - clamp_start cur L s, h, d])
                    else at operand (bidx @ [i, h, d]))"
    if v: "valid_index bd bidx" and i: "i < L" and h: "h < H" and d: "d < D" for bidx i h d
  proof -
    have vi: "valid_index (shape operand) (bidx @ [i, h, d])"
      using i h d by (simp add: op valid_index_append[OF v]) (simp add: valid_index_def)
    show ?thesis
      using dynamic_update_slice_at[OF r wf vi]
      by (simp add: op up clamp_starts_cache in_window_cache[OF v h d]
            minus_starts_cache[OF valid_index_length[OF v]] Let_def
          del: append.simps)
  qed
  show ?thesis
    using r dynamic_update_slice_shape[OF r wf] el op by (intro exI[of _ r]) simp
qed


lemma mistral_step_eq_falcon_step: "mistral_step combine_masks c step = falcon_step combine_masks c step"
  by (simp add: mistral_step_def falcon_step_def mistral_concatenate_to_cache_def
        falcon_concatenate_to_cache_def Let_def
      split: prod.splits list.splits sum.splits)

lemma decode_steps_cong:
  "(\<And>c s. step c s = step' c s) \<Longrightarrow> decode_steps step c steps = decode_steps step' c steps"
  by (induction steps arbitrary: c) (simp_all split: sum.splits)

lemma falcon_step_cache:
  assumes cs: "cache_shaped c bd L H D"
    and st: "step_shaped bd s H D step"
    and sl: "s \<le> L"
  shows "\<exists>c'. falcon_step combine_masks c step =
                (case combine_masks (pad_mask L (int32 (cache_index c + int s)) (bd @ [1, s, L]))
                        (snd (snd (snd step))) of
                   Inl e \<Rightarrow> Inl e
                 | Inr m \<Rightarrow> Inr c')
           \<and> cache_shaped c' bd L H D
           \<and> cache_index c' = int32 (cache_index c + int s)
           \<and> (\<forall>bidx i h d. valid_index bd bidx \<and> i < L \<and> h < H \<and> d < D \<longrightarrow>
                 at (cached_key c') (bidx @ [i, h, d]) =
                   (if clamp_start (cache_index c) L s \<le> i \<and> i < clamp_start (cache_index c) L s + s
                    then at (fst step) (bidx @ [i - clamp_start (cache_index c) L s, h, d])
                    else at (cached_key c) (bidx @ [i, h, d])))
           \<and> (\<forall>bidx i h d. valid_index bd bidx \<and> i < L \<and> h < H \<and> d < D \<longrightarrow>
                 at (cached_value c') (bidx @ [i, h, d]) =
                   (if clamp_start (cache_index c) L s \<le> i \<and> i < clamp_start (cache_index c) L s + s
                    then at (fst (snd step)) (bidx @ [i - clamp_start (cache_index c) L s, h, d])
                    else at (cached_value c) (bidx @ [i, h, d])))"
proof -
  obtain key "value" query attention_mask where step: "step = (key, value, query, attention_mask)"
    by (cases step)
  have wfk: "well_formed (cached_key c)" and wfv: "well_formed (cached_value c)"
    and shk: "shape (cached_key c) = bd @ [L, H, D]" and shv: "shape (cached_value c) = bd @ [L, H, D]"
    using cs by (simp_all add: cache_shaped_def)
  have upk: "shape key = bd @ [s, H, D]" and upv: "shape value = bd @ [s, H, D]"
    and q1: "1 < length (shape query)" and q2: "shape query ! 1 = s"
    using st by (simp_all add: step_shaped_def step)
  let ?ix = "replicate (length bd) 0 @ [cache_index c, 0, 0]"
  from dynamic_update_slice_cache[OF wfk shk upk sl, of "cache_index c"]
  obtain rk where rk: "dynamic_update_slice (cached_key c) key ?ix = Inr rk"
    and rk_sh: "shape rk = bd @ [L, H, D]" and rk_wf: "well_formed rk"
    and rk_at: "\<forall>bidx i h d. valid_index bd bidx \<and> i < L \<and> h < H \<and> d < D \<longrightarrow>
                 at rk (bidx @ [i, h, d]) =
                   (if clamp_start (cache_index c) L s \<le> i \<and> i < clamp_start (cache_index c) L s + s
                    then at key (bidx @ [i - clamp_start (cache_index c) L s, h, d])
                    else at (cached_key c) (bidx @ [i, h, d]))"
    by (elim exE conjE)
  from dynamic_update_slice_cache[OF wfv shv upv sl, of "cache_index c"]
  obtain rv where rv: "dynamic_update_slice (cached_value c) value ?ix = Inr rv"
    and rv_sh: "shape rv = bd @ [L, H, D]" and rv_wf: "well_formed rv"
    and rv_at: "\<forall>bidx i h d. valid_index bd bidx \<and> i < L \<and> h < H \<and> d < D \<longrightarrow>
                 at rv (bidx @ [i, h, d]) =
                   (if clamp_start (cache_index c) L s \<le> i \<and> i < clamp_start (cache_index c) L s + s
                    then at value (bidx @ [i - clamp_start (cache_index c) L s, h, d])
                    else at (cached_value c) (bidx @ [i, h, d]))"
    by (elim exE conjE)
  obtain b rest where q: "shape query = b # s # rest"
    using q1 q2 by (cases "shape query"; cases "tl (shape query)") auto
  let ?new = "int32 (cache_index c + int s)"
  let ?pad = "pad_mask L ?new (bd @ [1, s, L])"
  let ?c' = "\<lparr>cached_key = rk, cached_value = rv, cache_index = ?new\<rparr>"
  have res: "falcon_step combine_masks c step =
               (case combine_masks ?pad (snd (snd (snd step))) of Inl e \<Rightarrow> Inl e | Inr m \<Rightarrow> Inr ?c')"
    by (cases "combine_masks (pad_mask L ?new (bd @ [Suc 0, s, L])) attention_mask")
       (simp_all add: falcon_step_def step falcon_concatenate_to_cache_def shk rk rv q Let_def)
  have sel: "cached_key ?c' = rk" "cached_value ?c' = rv" "fst step = key" "fst (snd step) = value"
    by (simp_all add: step)
  show ?thesis
  proof (intro exI[of _ ?c'] conjI)
    show "falcon_step combine_masks c step =
            (case combine_masks ?pad (snd (snd (snd step))) of Inl e \<Rightarrow> Inl e | Inr m \<Rightarrow> Inr ?c')"
      by (rule res)
    show "cache_shaped ?c' bd L H D"
      using rk_sh rk_wf rv_sh rv_wf by (simp add: cache_shaped_def)
    show "cache_index ?c' = int32 (cache_index c + int s)"
      by simp
    show "\<forall>bidx i h d. valid_index bd bidx \<and> i < L \<and> h < H \<and> d < D \<longrightarrow>
                 at (cached_key ?c') (bidx @ [i, h, d]) =
                   (if clamp_start (cache_index c) L s \<le> i \<and> i < clamp_start (cache_index c) L s + s
                    then at (fst step) (bidx @ [i - clamp_start (cache_index c) L s, h, d])
                    else at (cached_key c) (bidx @ [i, h, d]))"
      unfolding sel by (rule rk_at)
    show "\<forall>bidx i h d. valid_index bd bidx \<and> i < L \<and> h < H \<and> d < D \<longrightarrow>
                 at (cached_value ?c') (bidx @ [i, h, d]) =
                   (if clamp_start (cache_index c) L s \<le> i \<and> i < clamp_start (cache_index c) L s + s
                    then at (fst (snd step)) (bidx @ [i - clamp_start (cache_index c) L s, h, d])
                    else at (cached_value c) (bidx @ [i, h, d]))"
      unfolding sel by (rule rv_at)
  qed
qed

lemma update_dim_exceeds:
  "L < s \<Longrightarrow> list_ex (\<lambda>(u, n). n < u) (zip (bd @ [s, H, D]) (bd @ [L, H, D :: nat]))"
  by (simp add: list_ex_iff)

lemma falcon_step_too_long:
  assumes cs: "cache_shaped c bd L H D"
    and st: "step_shaped bd s H D step"
    and sl: "L < s"
  shows "falcon_step combine_masks c step
           = Inl (TypeError ''dynamic_update_slice update shape must be smaller than operand shape'')"
proof -
  obtain key "value" query attention_mask where step: "step = (key, value, query, attention_mask)"
    by (cases step)
  have shk: "shape (cached_key c) = bd @ [L, H, D]"
    using cs by (simp add: cache_shaped_def)
  have upk: "shape key = bd @ [s, H, D]"
    using st by (simp add: step_shaped_def step)
  have "dynamic_update_slice (cached_key c) key (replicate (length bd) 0 @ [cache_index c, 0, 0])
          = Inl (TypeError ''dynamic_update_slice update shape must be smaller than operand shape'')"
    using update_dim_exceeds[OF sl, of bd H D] by (simp add: dynamic_update_slice_def shk upk)
  then show ?thesis
    by (simp add: falcon_step_def step falcon_concatenate_to_cache_def shk Let_def)
qed

lemma clamp_start_inside: "k < L \<Longrightarrow> clamp_start (int k) L 1 = k"
  by (simp add: clamp_start_def)

lemma decode_steps_from:
  assumes "cache_shaped c bd L H D"
    and "cache_index c = int k0"
    and "k0 + length steps \<le> L"
    and "int L < 2 ^ 31"
    and "\<forall>step \<in> set steps. step_shaped bd 1 H D step"
    and "\<forall>i < length steps.
           \<not> isl (combine_masks (pad_mask L (int (Suc (k0 + i))) (bd @ [1, 1, L]))
                   (snd (snd (snd (steps ! i)))))"
  shows "\<exists>c'. decode_steps (falcon_step combine_masks) c steps = Inr c'
           \<and> cache_shaped c' bd L H D
           \<and> cache_index c' = int (k0 + length steps)
           \<and> (\<forall>bidx i h d. valid_index bd bidx \<and> i < L \<and> h < H \<and> d < D \<longrightarrow>
                 at (cached_key c') (bidx @ [i, h, d]) =
                   (if k0 \<le> i \<and> i < k0 + length steps
                    then at (fst (steps ! (i - k0))) (bidx @ [0, h, d])
                    else at (cached_key c) (bidx @ [i, h, d]))
               \<and> at (cached_value c') (bidx @ [i, h, d]) =
                   (if k0 \<le> i \<and> i < k0 + length steps
                    then at (fst (snd (steps ! (i - k0)))) (bidx @ [0, h, d])
                    else at (cached_value c) (bidx @ [i, h, d])))"
  using assms
proof (induction steps arbitrary: c k0)
  case Nil
  then show ?case by auto
next
  case (Cons step rest)
  have k0: "k0 < L" and one: "(1::nat) \<le> L"
    using Cons.prems(3) by simp_all
  have st: "step_shaped bd 1 H D step"
    using Cons.prems(5) by simp
  have ix: "int32 (cache_index c + int 1) = int (Suc k0)"
    using k0 Cons.prems(4) by (simp add: Cons.prems(2) int32_id)
  have "\<not> isl (combine_masks (pad_mask L (int (Suc (k0 + 0))) (bd @ [1, 1, L]))
                 (snd (snd (snd ((step # rest) ! 0)))))"
    using Cons.prems(6) by blast
  then have cm: "\<not> isl (combine_masks (pad_mask L (int32 (cache_index c + int 1)) (bd @ [1, 1, L]))
                      (snd (snd (snd step))))"
    by (simp only: ix nth_Cons_0 add_0_right simp_thms)
  from falcon_step_cache[of c bd L H D 1 step combine_masks, OF Cons.prems(1) st one]
  obtain c1 where c1': "falcon_step combine_masks c step =
                (case combine_masks (pad_mask L (int32 (cache_index c + int 1)) (bd @ [1, 1, L]))
                        (snd (snd (snd step))) of
                   Inl e \<Rightarrow> Inl e
                 | Inr m \<Rightarrow> Inr c1)"
    and sh1: "cache_shaped c1 bd L H D"
    and ix1: "cache_index c1 = int32 (cache_index c + int 1)"
    and k1: "\<forall>bidx i h d. valid_index bd bidx \<and> i < L \<and> h < H \<and> d < D \<longrightarrow>
                 at (cached_key c1) (bidx @ [i, h, d]) =
                   (if clamp_start (cache_index c) L 1 \<le> i \<and> i < clamp_start (cache_index c) L 1 + 1
                    then at (fst step) (bidx @ [i - clamp_start (cache_index c) L 1, h, d])
                    else at (cached_key c) (bidx @ [i, h, d]))"
    and v1: "\<forall>bidx i h d. valid_index bd bidx \<and> i < L \<and> h < H \<and> d < D \<longrightarrow>
                 at (cached_value c1) (bidx @ [i, h, d]) =
                   (if clamp_start (cache_index c) L 1 \<le> i \<and> i < clamp_start (cache_index c) L 1 + 1
                    then at (fst (snd step)) (bidx @ [i - clamp_start (cache_index c) L 1, h, d])
                    else at (cached_value c) (bidx @ [i, h, d]))"
    by (elim exE conjE)
  have c1: "falcon_step combine_masks c step = Inr c1"
  proof (cases "combine_masks (pad_mask L (int32 (cache_index c + int 1)) (bd @ [1, 1, L]))
                  (snd (snd (snd step)))")
    case (Inl e)
    with cm show ?thesis by simp
  next
    case (Inr m)
    then show ?thesis by (simp only: c1' sum.case)
  qed
  have cl: "clamp_start (cache_index c) L 1 = k0"
    using clamp_start_inside[OF k0] by (simp add: Cons.prems(2))
  have ix1': "cache_index c1 = int (Suc k0)"
    by (simp only: ix1 ix)
  have len: "Suc k0 + length rest \<le> L"
    using Cons.prems(3) by simp
  have rest: "\<forall>step \<in> set rest. step_shaped bd 1 H D step"
    using Cons.prems(5) by simp
  have cms: "\<forall>i < length rest.
           \<not> isl (combine_masks (pad_mask L (int (Suc (Suc k0 + i))) (bd @ [1, 1, L]))
                   (snd (snd (snd (rest ! i)))))"
  proof (intro allI impI)
    fix i assume "i < length rest"
    then have "Suc i < length (step # rest)" by simp
    from Cons.prems(6)[rule_format, OF this] show
      "\<not> isl (combine_masks (pad_mask L (int (Suc (Suc k0 + i))) (bd @ [1, 1, L]))
                   (snd (snd (snd (rest ! i)))))"
      by simp
  qed
  from Cons.IH[OF sh1 ix1' len Cons.prems(4) rest cms]
  obtain c' where c': "decode_steps (falcon_step combine_masks) c1 rest = Inr c'"
    and sh': "cache_shaped c' bd L H D"
    and ix': "cache_index c' = int (Suc k0 + length rest)"
    and el': "\<forall>bidx i h d. valid_index bd bidx \<and> i < L \<and> h < H \<and> d < D \<longrightarrow>
                 at (cached_key c') (bidx @ [i, h, d]) =
                   (if Suc k0 \<le> i \<and> i < Suc k0 + length rest
                    then at (fst (rest ! (i - Suc k0))) (bidx @ [0, h, d])
                    else at (cached_key c1) (bidx @ [i, h, d]))
               \<and> at (cached_value c') (bidx @ [i, h, d]) =
                   (if Suc k0 \<le> i \<and> i < Suc k0 + length rest
                    then at (fst (snd (rest ! (i - Suc k0)))) (bidx @ [0, h, d])
                    else at (cached_value c1) (bidx @ [i, h, d]))"
    by (elim exE conjE)
  have el: "at (cached_key c') (bidx @ [i, h, d]) =
                   (if k0 \<le> i \<and> i < k0 + length (step # rest)
                    then at (fst ((step # rest) ! (i - k0))) (bidx @ [0, h, d])
                    else at (cached_key c) (bidx @ [i, h, d]))
               \<and> at (cached_value c') (bidx @ [i, h, d]) =
                   (if k0 \<le> i \<and> i < k0 + length (step # rest)
                    then at (fst (snd ((step # rest) ! (i - k0)))) (bidx @ [0, h, d])
                    else at (cached_value c) (bidx @ [i, h, d]))"
    if a: "valid_index bd bidx \<and> i < L \<and> h < H \<and> d < D" for bidx i h d
  proof -
    note e' = el'[rule_format, OF a]
    note ek = k1[rule_format, OF a, unfolded cl]
    note ev = v1[rule_format, OF a, unfolded cl]
    consider "i < k0" | "i = k0" | "Suc k0 \<le> i"
      by linarith
    then show ?thesis
    proof cases
      case 1
      then show ?thesis using e' ek ev by simp
    next
      case 2
      then show ?thesis using e' ek ev by simp
    next
      case 3
      then obtain j where j: "i = Suc k0 + j"
        using le_Suc_ex by blast
      show ?thesis using e' ek ev by (simp add: j)
    qed
  qed
  show ?case
  proof (intro exI[of _ c'] conjI)
    show "decode_steps (falcon_step combine_masks) c (step # rest) = Inr c'"
      by (simp add: c1 c')
    show "cache_shaped c' bd L H D"
      by (rule sh')
    show "cache_index c' = int (k0 + length (step # rest))"
      by (simp add: ix')
    show "\<forall>bidx i h d. valid_index bd bidx \<and> i < L \<and> h < H \<and> d < D \<longrightarrow>
                 at (cached_key c') (bidx @ [i, h, d]) =
                   (if k0 \<le> i \<and> i < k0 + length (step # rest)
                    then at (fst ((step # rest) ! (i - k0))) (bidx @ [0, h, d])
                    else at (cached_key c) (bidx @ [i, h, d]))
               \<and> at (cached_value c') (bidx @ [i, h, d]) =
                   (if k0 \<le> i \<and> i < k0 + length (step # rest)
                    then at (fst (snd ((step # rest) ! (i - k0)))) (bidx @ [0, h, d])
                    else at (cached_value c) (bidx @ [i, h, d]))"
      using el by blast
  qed
qed

lemma step_accessors:
  "step_key step = fst step" "step_value step = fst (snd step)" "step_mask step = snd (snd (snd step))"
  by (simp_all add: step_key_def step_value_def step_mask_def split: prod.splits)

text \<open>
  Claim C1. Let the cache be active with index 0 and buffers of length \<open>max_length\<close>
  along the sequence axis (below \<open>2^31\<close>), and let \<open>steps\<close> be \<open>N \<le> max_length\<close> decode
  steps of step length 1, such that \<open>combine_masks\<close> accepts the attention mask of step
  \<open>i\<close> with the pad mask that the call builds for it, the mask of the positions below
  \<open>i + 1\<close>. Then no call raises, Falcon's and Mistral's methods leave the same cache,
  \<open>cache_index\<close> is \<open>N\<close>, and for every \<open>i < N\<close> position \<open>i\<close> of \<open>cached_key\<close> (of
  \<open>cached_value\<close>) along the sequence axis is the key (the value) of step \<open>i\<close>.
\<close>

theorem kv_cache_holds_keys_after_decode_steps:
  fixes c :: "'a::zero kv_cache" and steps :: "('a, 'q, 'm) decode_step list"
  assumes "cache_shaped c batch_dims max_length num_heads depth_per_head"
    and "cache_index c = 0"
    and "length steps \<le> max_length"
    and "int max_length < 2 ^ 31"
    and "\<forall>step \<in> set steps. step_shaped batch_dims 1 num_heads depth_per_head step"
    and "\<forall>i < length steps.
           \<not> isl (combine_masks (pad_mask max_length (int (i + 1)) (batch_dims @ [1, 1, max_length]))
                   (step_mask (steps ! i)))"
  shows "\<exists>c'. decode_steps (falcon_step combine_masks) c steps = Inr c'
           \<and> decode_steps (mistral_step combine_masks) c steps = Inr c'
           \<and> cache_index c' = int (length steps)
           \<and> (\<forall>i < length steps. \<forall>bidx h d.
                 valid_index batch_dims bidx \<and> h < num_heads \<and> d < depth_per_head \<longrightarrow>
                   at (cached_key c') (bidx @ [i, h, d]) = at (step_key (steps ! i)) (bidx @ [0, h, d])
                 \<and> at (cached_value c') (bidx @ [i, h, d]) = at (step_value (steps ! i)) (bidx @ [0, h, d]))"
proof -
  have cms: "\<forall>i < length steps.
           \<not> isl (combine_masks (pad_mask max_length (int (Suc (0 + i))) (batch_dims @ [1, 1, max_length]))
                   (snd (snd (snd (steps ! i)))))"
    using assms(6) by (simp add: step_accessors)
  have ix0: "cache_index c = int 0" and len: "0 + length steps \<le> max_length"
    using assms(2,3) by simp_all
  from decode_steps_from[OF assms(1) ix0 len assms(4,5) cms]
  obtain c' where run: "decode_steps (falcon_step combine_masks) c steps = Inr c'"
    and ix: "cache_index c' = int (0 + length steps)"
    and el: "\<forall>bidx i h d. valid_index batch_dims bidx \<and> i < max_length \<and> h < num_heads \<and> d < depth_per_head \<longrightarrow>
                 at (cached_key c') (bidx @ [i, h, d]) =
                   (if 0 \<le> i \<and> i < 0 + length steps
                    then at (fst (steps ! (i - 0))) (bidx @ [0, h, d])
                    else at (cached_key c) (bidx @ [i, h, d]))
               \<and> at (cached_value c') (bidx @ [i, h, d]) =
                   (if 0 \<le> i \<and> i < 0 + length steps
                    then at (fst (snd (steps ! (i - 0)))) (bidx @ [0, h, d])
                    else at (cached_value c) (bidx @ [i, h, d]))"
    by (elim exE conjE)
  have m: "decode_steps (mistral_step combine_masks) c steps = decode_steps (falcon_step combine_masks) c steps"
    by (rule decode_steps_cong) (rule mistral_step_eq_falcon_step)
  have "at (cached_key c') (bidx @ [i, h, d]) = at (step_key (steps ! i)) (bidx @ [0, h, d])
          \<and> at (cached_value c') (bidx @ [i, h, d]) = at (step_value (steps ! i)) (bidx @ [0, h, d])"
    if "i < length steps" and "valid_index batch_dims bidx \<and> h < num_heads \<and> d < depth_per_head"
    for i bidx h d
  proof -
    have "valid_index batch_dims bidx \<and> i < max_length \<and> h < num_heads \<and> d < depth_per_head"
      using that assms(3) by simp
    from el[rule_format, OF this] that(1) show ?thesis
      by (simp add: step_accessors)
  qed
  then show ?thesis
    using run ix m by (intro exI[of _ c']) simp
qed

theorem kv_cache_holds_keys_after_decode_steps_witness:
  "\<exists>c'. decode_steps (falcon_step flax_combine_masks)
            \<lparr>cached_key = zeros [1, 2, 1, 1], cached_value = zeros [1, 2, 1, 1], cache_index = 0\<rparr>
            [(\<lparr>shape = [1, 1, 1, 1], elems = [5 :: int]\<rparr>, \<lparr>shape = [1, 1, 1, 1], elems = [6]\<rparr>,
              \<lparr>shape = [1, 1, 1, 1], elems = [1 :: int]\<rparr>, \<lparr>shape = [1, 1, 1, 2], elems = [True, True]\<rparr>),
             (\<lparr>shape = [1, 1, 1, 1], elems = [7]\<rparr>, \<lparr>shape = [1, 1, 1, 1], elems = [8]\<rparr>,
              \<lparr>shape = [1, 1, 1, 1], elems = [1]\<rparr>, \<lparr>shape = [1, 1, 1, 2], elems = [True, True]\<rparr>)] = Inr c'
      \<and> cache_index c' = 2
      \<and> at (cached_key c') [0, 0, 0, 0] = 5 \<and> at (cached_key c') [0, 1, 0, 0] = 7
      \<and> at (cached_value c') [0, 0, 0, 0] = 6 \<and> at (cached_value c') [0, 1, 0, 0] = 8"
proof -
  let ?c = "\<lparr>cached_key = zeros [1, 2, 1, 1], cached_value = zeros [1, 2, 1, 1], cache_index = 0\<rparr> :: int kv_cache"
  let ?steps = "[(\<lparr>shape = [1, 1, 1, 1], elems = [5 :: int]\<rparr>, \<lparr>shape = [1, 1, 1, 1], elems = [6]\<rparr>,
              \<lparr>shape = [1, 1, 1, 1], elems = [1 :: int]\<rparr>, \<lparr>shape = [1, 1, 1, 2], elems = [True, True]\<rparr>),
             (\<lparr>shape = [1, 1, 1, 1], elems = [7]\<rparr>, \<lparr>shape = [1, 1, 1, 1], elems = [8]\<rparr>,
              \<lparr>shape = [1, 1, 1, 1], elems = [1]\<rparr>, \<lparr>shape = [1, 1, 1, 2], elems = [True, True]\<rparr>)]
             :: (int, int, bool tensor) decode_step list"
  have sh: "cache_shaped ?c [1] 2 1 1"
    by (simp add: cache_shaped_def well_formed_def zeros_def)
  have st: "\<forall>step \<in> set ?steps. step_shaped [1] 1 1 1 step"
    by (simp add: step_shaped_def)
  have cm: "\<forall>i < length ?steps.
           \<not> isl (flax_combine_masks (pad_mask 2 (int (i + 1)) ([1] @ [1, 1, 2])) (step_mask (?steps ! i)))"
    by (simp add: flax_combine_masks_def pad_mask_def step_mask_def less_Suc_eq Let_def)
  have ix0: "cache_index ?c = 0" and len: "length ?steps \<le> 2" and small: "int 2 < 2 ^ 31"
    by simp_all
  from kv_cache_holds_keys_after_decode_steps[of ?c "[1]" 2 1 1 ?steps flax_combine_masks,
         OF sh ix0 len small st cm]
  obtain c' where run: "decode_steps (falcon_step flax_combine_masks) ?c ?steps = Inr c'"
    and ix: "cache_index c' = int (length ?steps)"
    and el: "\<forall>i < length ?steps. \<forall>bidx h d.
                 valid_index [1] bidx \<and> h < 1 \<and> d < 1 \<longrightarrow>
                   at (cached_key c') (bidx @ [i, h, d]) = at (step_key (?steps ! i)) (bidx @ [0, h, d])
                 \<and> at (cached_value c') (bidx @ [i, h, d]) = at (step_value (?steps ! i)) (bidx @ [0, h, d])"
    by (elim exE conjE)
  have v: "valid_index [1] [0] \<and> (0::nat) < 1 \<and> (0::nat) < 1"
    by (simp add: valid_index_def)
  have e0: "at (cached_key c') ([0] @ [0, 0, 0]) = at (step_key (?steps ! 0)) ([0] @ [0, 0, 0])
          \<and> at (cached_value c') ([0] @ [0, 0, 0]) = at (step_value (?steps ! 0)) ([0] @ [0, 0, 0])"
    by (rule el[rule_format, of 0 "[0]" 0 0, OF _ v]) simp
  have e1: "at (cached_key c') ([0] @ [1, 0, 0]) = at (step_key (?steps ! 1)) ([0] @ [0, 0, 0])
          \<and> at (cached_value c') ([0] @ [1, 0, 0]) = at (step_value (?steps ! 1)) ([0] @ [0, 0, 0])"
    by (rule el[rule_format, of 1 "[0]" 0 0, OF _ v]) simp
  show ?thesis
    using run ix e0 e1 by (intro exI[of _ c']) (simp add: at_def step_key_def step_value_def)
qed

text \<open>
  Claim C5. Let a decode step of length \<open>step_len\<close> be applied to an active cache with
  \<open>cache_index + step_len > max_length\<close>. If \<open>step_len \<le> max_length\<close>, the write does not
  raise: it is moved back to the last \<open>step_len\<close> positions of the buffers, whose shapes
  are unchanged, every earlier position keeps its content, and the index is advanced by
  \<open>step_len\<close> all the same; the call returns this cache, and it raises only if
  \<open>combine_masks\<close>, after the write, rejects the masks. If \<open>step_len > max_length\<close>, the
  call raises: the array library refuses an update larger than its operand.
\<close>

theorem cache_overflow_write_is_clamped:
  fixes c :: "'a::zero kv_cache" and step :: "('a, 'q, 'm) decode_step"
  assumes "cache_shaped c batch_dims max_length num_heads depth_per_head"
    and "step_shaped batch_dims step_len num_heads depth_per_head step"
    and "int max_length < cache_index c + int step_len"
  shows "(step_len \<le> max_length \<longrightarrow>
          (\<exists>c'. falcon_step combine_masks c step =
                   (case combine_masks
                           (pad_mask max_length (int32 (cache_index c + int step_len))
                              (batch_dims @ [1, step_len, max_length]))
                           (step_mask step) of
                      Inl e \<Rightarrow> Inl e
                    | Inr m \<Rightarrow> Inr c')
             \<and> shape (cached_key c') = shape (cached_key c)
             \<and> shape (cached_value c') = shape (cached_value c)
             \<and> cache_index c' = int32 (cache_index c + int step_len)
             \<and> (\<forall>bidx i h d.
                   valid_index batch_dims bidx \<and> i < max_length \<and> h < num_heads \<and> d < depth_per_head \<longrightarrow>
                     at (cached_key c') (bidx @ [i, h, d]) =
                       (if max_length - step_len \<le> i
                        then at (step_key step) (bidx @ [i - (max_length - step_len), h, d])
                        else at (cached_key c) (bidx @ [i, h, d]))
                   \<and> at (cached_value c') (bidx @ [i, h, d]) =
                       (if max_length - step_len \<le> i
                        then at (step_value step) (bidx @ [i - (max_length - step_len), h, d])
                        else at (cached_value c) (bidx @ [i, h, d])))))
       \<and> (max_length < step_len \<longrightarrow>
            falcon_step combine_masks c step
              = Inl (TypeError ''dynamic_update_slice update shape must be smaller than operand shape''))"
proof (intro conjI impI)
  assume "max_length < step_len"
  from falcon_step_too_long[OF assms(1,2) this]
  show "falcon_step combine_masks c step
          = Inl (TypeError ''dynamic_update_slice update shape must be smaller than operand shape'')" .
next
  assume sl: "step_len \<le> max_length"
  have cl: "clamp_start (cache_index c) max_length step_len = max_length - step_len"
    using sl assms(3) by (simp add: clamp_start_def)
  from falcon_step_cache[of c batch_dims max_length num_heads depth_per_head step_len step combine_masks,
         OF assms(1,2) sl]
  obtain c' where run: "falcon_step combine_masks c step =
                (case combine_masks
                        (pad_mask max_length (int32 (cache_index c + int step_len))
                           (batch_dims @ [1, step_len, max_length]))
                        (snd (snd (snd step))) of
                   Inl e \<Rightarrow> Inl e
                 | Inr m \<Rightarrow> Inr c')"
    and sh: "cache_shaped c' batch_dims max_length num_heads depth_per_head"
    and ix: "cache_index c' = int32 (cache_index c + int step_len)"
    and k: "\<forall>bidx i h d. valid_index batch_dims bidx \<and> i < max_length \<and> h < num_heads \<and> d < depth_per_head \<longrightarrow>
                 at (cached_key c') (bidx @ [i, h, d]) =
                   (if clamp_start (cache_index c) max_length step_len \<le> i
                       \<and> i < clamp_start (cache_index c) max_length step_len + step_len
                    then at (fst step) (bidx @ [i - clamp_start (cache_index c) max_length step_len, h, d])
                    else at (cached_key c) (bidx @ [i, h, d]))"
    and v: "\<forall>bidx i h d. valid_index batch_dims bidx \<and> i < max_length \<and> h < num_heads \<and> d < depth_per_head \<longrightarrow>
                 at (cached_value c') (bidx @ [i, h, d]) =
                   (if clamp_start (cache_index c) max_length step_len \<le> i
                       \<and> i < clamp_start (cache_index c) max_length step_len + step_len
                    then at (fst (snd step)) (bidx @ [i - clamp_start (cache_index c) max_length step_len, h, d])
                    else at (cached_value c) (bidx @ [i, h, d]))"
    by (elim exE conjE)
  have run': "falcon_step combine_masks c step =
                   (case combine_masks
                           (pad_mask max_length (int32 (cache_index c + int step_len))
                              (batch_dims @ [1, step_len, max_length]))
                           (step_mask step) of
                      Inl e \<Rightarrow> Inl e
                    | Inr m \<Rightarrow> Inr c')"
    by (simp only: run step_accessors)
  have shs: "shape (cached_key c') = shape (cached_key c)" "shape (cached_value c') = shape (cached_value c)"
    using sh assms(1) by (simp_all add: cache_shaped_def)
  have el: "at (cached_key c') (bidx @ [i, h, d]) =
                     (if max_length - step_len \<le> i
                      then at (step_key step) (bidx @ [i - (max_length - step_len), h, d])
                      else at (cached_key c) (bidx @ [i, h, d]))
                 \<and> at (cached_value c') (bidx @ [i, h, d]) =
                     (if max_length - step_len \<le> i
                      then at (step_value step) (bidx @ [i - (max_length - step_len), h, d])
                      else at (cached_value c) (bidx @ [i, h, d]))"
    if b: "valid_index batch_dims bidx \<and> i < max_length \<and> h < num_heads \<and> d < depth_per_head"
    for bidx i h d
  proof -
    have "i < max_length - step_len + step_len"
      using b sl by simp
    then show ?thesis
      using k[rule_format, OF b] v[rule_format, OF b] by (simp add: cl step_accessors)
  qed
  show "\<exists>c'. falcon_step combine_masks c step =
                   (case combine_masks
                           (pad_mask max_length (int32 (cache_index c + int step_len))
                              (batch_dims @ [1, step_len, max_length]))
                           (step_mask step) of
                      Inl e \<Rightarrow> Inl e
                    | Inr m \<Rightarrow> Inr c')
             \<and> shape (cached_key c') = shape (cached_key c)
             \<and> shape (cached_value c') = shape (cached_value c)
             \<and> cache_index c' = int32 (cache_index c + int step_len)
             \<and> (\<forall>bidx i h d.
                   valid_index batch_dims bidx \<and> i < max_length \<and> h < num_heads \<and> d < depth_per_head \<longrightarrow>
                     at (cached_key c') (bidx @ [i, h, d]) =
                       (if max_length - step_len \<le> i
                        then at (step_key step) (bidx @ [i - (max_length - step_len), h, d])
                        else at (cached_key c) (bidx @ [i, h, d]))
                   \<and> at (cached_value c') (bidx @ [i, h, d]) =
                       (if max_length - step_len \<le> i
                        then at (step_value step) (bidx @ [i - (max_length - step_len), h, d])
                        else at (cached_value c) (bidx @ [i, h, d])))"
    using run' shs ix el by (intro exI[of _ c']) blast
qed

theorem cache_overflow_write_is_clamped_witness:
  "(\<exists>c'. falcon_step flax_combine_masks
            \<lparr>cached_key = \<lparr>shape = [1, 2, 1, 1], elems = [5, 7 :: int]\<rparr>,
              cached_value = \<lparr>shape = [1, 2, 1, 1], elems = [6, 8]\<rparr>, cache_index = 2\<rparr>
            (\<lparr>shape = [1, 1, 1, 1], elems = [9]\<rparr>, \<lparr>shape = [1, 1, 1, 1], elems = [10]\<rparr>,
             \<lparr>shape = [1, 1, 1, 1], elems = [1 :: int]\<rparr>, \<lparr>shape = [1, 1, 1, 2], elems = [True, True]\<rparr>) = Inr c'
      \<and> cache_index c' = 3
      \<and> at (cached_key c') [0, 0, 0, 0] = 5 \<and> at (cached_key c') [0, 1, 0, 0] = 9
      \<and> at (cached_value c') [0, 0, 0, 0] = 6 \<and> at (cached_value c') [0, 1, 0, 0] = 10)
   \<and> falcon_step flax_combine_masks
        \<lparr>cached_key = \<lparr>shape = [1, 2, 1, 1], elems = [5, 7 :: int]\<rparr>,
          cached_value = \<lparr>shape = [1, 2, 1, 1], elems = [6, 8]\<rparr>, cache_index = 2\<rparr>
        (\<lparr>shape = [1, 3, 1, 1], elems = [9, 11, 13]\<rparr>, \<lparr>shape = [1, 3, 1, 1], elems = [10, 12, 14]\<rparr>,
         \<lparr>shape = [1, 3, 1, 1], elems = [1, 1, 1 :: int]\<rparr>, \<lparr>shape = [1, 1, 3, 2], elems = replicate 6 True\<rparr>)
       = Inl (TypeError ''dynamic_update_slice update shape must be smaller than operand shape'')"
proof -
  let ?c = "\<lparr>cached_key = \<lparr>shape = [1, 2, 1, 1], elems = [5, 7 :: int]\<rparr>,
          cached_value = \<lparr>shape = [1, 2, 1, 1], elems = [6, 8]\<rparr>, cache_index = 2\<rparr>"
  let ?step = "(\<lparr>shape = [1, 1, 1, 1], elems = [9]\<rparr>, \<lparr>shape = [1, 1, 1, 1], elems = [10]\<rparr>,
         \<lparr>shape = [1, 1, 1, 1], elems = [1]\<rparr>, \<lparr>shape = [1, 1, 1, 2], elems = [True, True]\<rparr>)
         :: (int, int, bool tensor) decode_step"
  let ?long = "(\<lparr>shape = [1, 3, 1, 1], elems = [9, 11, 13]\<rparr>, \<lparr>shape = [1, 3, 1, 1], elems = [10, 12, 14]\<rparr>,
         \<lparr>shape = [1, 3, 1, 1], elems = [1, 1, 1]\<rparr>, \<lparr>shape = [1, 1, 3, 2], elems = replicate 6 True\<rparr>)
         :: (int, int, bool tensor) decode_step"
  have sh: "cache_shaped ?c [1] 2 1 1"
    by (simp add: cache_shaped_def well_formed_def)
  have st: "step_shaped [1] 1 1 1 ?step" and stl: "step_shaped [1] 3 1 1 ?long"
    by (simp_all add: step_shaped_def)
  have over: "int 2 < cache_index ?c + int 1" and overl: "int 2 < cache_index ?c + int 3"
    by simp_all
  have fits: "1 \<le> (2::nat)"
    by simp
  have "\<not> isl (flax_combine_masks
                     (pad_mask 2 (int32 (cache_index ?c + int 1)) ([1] @ [1, 1, 2]))
                     (step_mask ?step))"
    by (simp add: flax_combine_masks_def pad_mask_def step_mask_def Let_def)
  then obtain m where m: "flax_combine_masks
                     (pad_mask 2 (int32 (cache_index ?c + int 1)) ([1] @ [1, 1, 2]))
                     (step_mask ?step) = Inr m"
    by (cases "flax_combine_masks
                     (pad_mask 2 (int32 (cache_index ?c + int 1)) ([1] @ [1, 1, 2]))
                     (step_mask ?step)") simp_all
  note t = cache_overflow_write_is_clamped[of ?c "[1]" 2 1 1 1 ?step flax_combine_masks, OF sh st over]
  from t[THEN conjunct1, THEN mp, OF fits]
  obtain c' where run: "falcon_step flax_combine_masks ?c ?step =
                   (case flax_combine_masks
                           (pad_mask 2 (int32 (cache_index ?c + int 1)) ([1] @ [1, 1, 2]))
                           (step_mask ?step) of
                      Inl e \<Rightarrow> Inl e
                    | Inr m \<Rightarrow> Inr c')"
    and ix: "cache_index c' = int32 (cache_index ?c + int 1)"
    and el: "\<forall>bidx i h d.
                 valid_index [1] bidx \<and> i < 2 \<and> h < 1 \<and> d < 1 \<longrightarrow>
                   at (cached_key c') (bidx @ [i, h, d]) =
                     (if 2 - 1 \<le> i
                      then at (step_key ?step) (bidx @ [i - (2 - 1), h, d])
                      else at (cached_key ?c) (bidx @ [i, h, d]))
                 \<and> at (cached_value c') (bidx @ [i, h, d]) =
                     (if 2 - 1 \<le> i
                      then at (step_value ?step) (bidx @ [i - (2 - 1), h, d])
                      else at (cached_value ?c) (bidx @ [i, h, d]))"
    by (elim exE conjE)
  have run': "falcon_step flax_combine_masks ?c ?step = Inr c'"
    by (simp only: run m sum.case)
  have v0: "valid_index [1] [0] \<and> (0::nat) < 2 \<and> (0::nat) < 1 \<and> (0::nat) < 1"
    and v1: "valid_index [1] [0] \<and> (1::nat) < 2 \<and> (0::nat) < 1 \<and> (0::nat) < 1"
    by (simp_all add: valid_index_def)
  note e0 = el[rule_format, of "[0]" 0 0 0, OF v0]
  note e1 = el[rule_format, of "[0]" 1 0 0, OF v1]
  have first: "\<exists>c'. falcon_step flax_combine_masks ?c ?step = Inr c'
      \<and> cache_index c' = 3
      \<and> at (cached_key c') [0, 0, 0, 0] = 5 \<and> at (cached_key c') [0, 1, 0, 0] = 9
      \<and> at (cached_value c') [0, 0, 0, 0] = 6 \<and> at (cached_value c') [0, 1, 0, 0] = 10"
    using run' ix e0 e1 by (intro exI[of _ c']) (simp add: at_def int32_def step_key_def step_value_def)
  have long: "(2::nat) < 3"
    by simp
  note second = cache_overflow_write_is_clamped[of ?c "[1]" 2 1 1 3 ?long flax_combine_masks,
                  OF sh stl overl, THEN conjunct2, THEN mp, OF long]
  from first second show ?thesis
    by (rule conjI)
qed

text \<open>
  The claim as written says that the write never raises when
  \<open>cache_index + step_len > max_length\<close>. A step of length 2 on a buffer of length 1,
  with the index at 0, raises.
\<close>

theorem cache_write_longer_than_buffer_counterexample:
  "falcon_step flax_combine_masks
     \<lparr>cached_key = \<lparr>shape = [1, 1, 1, 1], elems = [0 :: int]\<rparr>,
       cached_value = \<lparr>shape = [1, 1, 1, 1], elems = [0]\<rparr>, cache_index = 0\<rparr>
     (\<lparr>shape = [1, 2, 1, 1], elems = [9, 11]\<rparr>, \<lparr>shape = [1, 2, 1, 1], elems = [10, 12]\<rparr>,
      \<lparr>shape = [1, 2, 1, 1], elems = [1, 1 :: int]\<rparr>, \<lparr>shape = [1, 1, 2, 1], elems = [True, True]\<rparr>)
     = Inl (TypeError ''dynamic_update_slice update shape must be smaller than operand shape'')"
  by (simp add: falcon_step_def falcon_concatenate_to_cache_def dynamic_update_slice_def)

end
